theory Spec2Isabelle
  imports Main "HOL-Library.Sublist"
begin

section \<open>Python values used by \<open>db_util.py\<close>\<close>

subsection \<open>Strings\<close>

text \<open>
  \<open>sep.join(xs)\<close>.
\<close>

fun join :: "string \<Rightarrow> string list \<Rightarrow> string" where
  "join sep [] = []"
| "join sep [x] = x"
| "join sep (x # y # ys) = x @ sep @ join sep (y # ys)"

text \<open>
  \<open>s.replace(old, new)\<close> for a non-empty \<open>old\<close>: the text is scanned from the left, every
  occurrence found is replaced and the scan goes on behind it (the replacement is not
  scanned again).
\<close>

function replace_scan :: "string \<Rightarrow> string \<Rightarrow> string \<Rightarrow> string" where
  "replace_scan old new [] = []"
| "replace_scan old new (c # cs) =
     (if old \<noteq> [] \<and> prefix old (c # cs)
      then new @ replace_scan old new (drop (length old) (c # cs))
      else c # replace_scan old new cs)"
  by pat_completeness auto
termination
  by (relation "measure (\<lambda>(old, new, s). length s)") (auto simp: neq_Nil_conv)

text \<open>
  \<open>s.replace(old, new)\<close>; with an empty \<open>old\<close> Python puts \<open>new\<close> in front of every
  character and at the end.
\<close>

definition py_replace :: "string \<Rightarrow> string \<Rightarrow> string \<Rightarrow> string" where
  "py_replace old new s =
     (if old = [] then new @ concat (map (\<lambda>c. c # new) s) else replace_scan old new s)"

subsection \<open>Exceptions\<close>

text \<open>
  A Python exception: its class name and its arguments. The handle's methods and the
  pandas functions may raise an exception of any class.
\<close>

datatype exn = Exc (exc_class: string) (exc_args: "string list")

definition ValueError :: "string list \<Rightarrow> exn" where
  "ValueError args = Exc ''ValueError'' args"

definition TypeError :: "string list \<Rightarrow> exn" where
  "TypeError args = Exc ''TypeError'' args"

definition KeyError :: "string list \<Rightarrow> exn" where
  "KeyError args = Exc ''KeyError'' args"

subsection \<open>Data frames\<close>

text \<open>
  The dtype of a column. The first seven are the keys of \<open>_dtype_map\<close>: \<open>float64\<close>,
  \<open>float32\<close>, \<open>int64\<close>, \<open>int32\<close>, \<open><M8[ns]\<close>, \<open>DatetimeTZDtype(unit, tz)\<close> and \<open>O\<close>.
  \<open>OtherDtype s\<close> is any other dtype, \<open>s\<close> the text \<open>str\<close> gives for it (\<open>int16\<close>,
  \<open>category\<close>, \<open>timedelta64[ns]\<close>, ...).
\<close>

datatype dtype =
    Float64
  | Float32
  | Int64
  | Int32
  | Datetime64ns
  | DatetimeTZ string string
  | Object
  | Bool
  | OtherDtype string

text \<open>\<open>str(dt)\<close>, as the f-string of the error message formats a dtype.\<close>

fun dtype_str :: "dtype \<Rightarrow> string" where
  "dtype_str Float64 = ''float64''"
| "dtype_str Float32 = ''float32''"
| "dtype_str Int64 = ''int64''"
| "dtype_str Int32 = ''int32''"
| "dtype_str Datetime64ns = ''datetime64[ns]''"
| "dtype_str (DatetimeTZ unit tz) = ''datetime64['' @ unit @ '', '' @ tz @ '']''"
| "dtype_str Object = ''object''"
| "dtype_str Bool = ''bool''"
| "dtype_str (OtherDtype s) = s"

text \<open>
  A label of \<open>df.index.names\<close> is a string or \<open>None\<close> (an index without a name); an
  f-string formats \<open>None\<close> as the text \<open>None\<close>.
\<close>

type_synonym label = "string option"

fun py_str :: "label \<Rightarrow> string" where
  "py_str None = ''None''"
| "py_str (Some s) = s"

text \<open>
  A cell is missing (\<open>None\<close>: NaN, None, NaT) or present; a present cell is given by the
  text \<open>to_csv\<close> writes for it.
\<close>

type_synonym cell = "string option"

text \<open>
  A \<open>pandas.DataFrame\<close> with string column labels: the names of its index, its columns
  in order (label and dtype; pandas allows a label to repeat) and its rows of cells.
\<close>

record dataframe =
  index_names :: "label list"
  columns :: "(string \<times> dtype) list"
  cells :: "cell list list"

text \<open>\<open>list(df)\<close>: the column labels in order.\<close>

definition list_df :: "dataframe \<Rightarrow> string list" where
  "list_df df = map fst (columns df)"

section \<open>The connection handle and the pandas functions\<close>

text \<open>
  What \<open>isinstance\<close> finds for \<open>conn\<close>: a sqlalchemy \<open>Engine\<close>, a sqlalchemy
  \<open>Connection\<close>, or an object of another type (with the text of \<open>type(conn)\<close>).
\<close>

datatype handle_kind = Engine | Connection | Other string

text \<open>
  The calls the module makes on the handle and on what the handle gives out:
  \<open>conn.execute(sql)\<close>, \<open>conn.connect()\<close>, \<open>con.cursor()\<close>, \<open>cur.execute(sql)\<close>,
  \<open>cur.copy_from(csv, table, columns=..., null=...)\<close>, \<open>cur.connection.commit()\<close>,
  the two releases a \<open>with\<close> block makes (the cursor's and the connection's
  \<open>__exit__\<close>), and \<open>rollback()\<close>, which the handle offers and the module never calls.
\<close>

datatype call =
    Execute string
  | Connect
  | Cursor
  | CurExecute string
  | CopyFrom string string "string list" string
  | Commit
  | Rollback
  | CursorClose
  | ConnClose

text \<open>
  The environment of a run. \<open>respond\<close> is the handle: what a call does to the database
  behind it (of any type \<open>'db\<close>) and whether the call raises. \<open>get_schema\<close> is
  \<open>pd.io.sql.get_schema(df, name, con=conn)\<close> and \<open>to_csv\<close> is
  \<open>df.to_csv(csv, sep="\t", columns=cols, index=index, header=False)\<close> (the text
  written to the buffer); both are pandas functions and may raise.
\<close>

record 'db env =
  kind :: handle_kind
  respond :: "call \<Rightarrow> 'db \<Rightarrow> exn option \<times> 'db"
  get_schema :: "dataframe \<Rightarrow> string \<Rightarrow> exn + string"
  to_csv :: "dataframe \<Rightarrow> label list \<Rightarrow> bool \<Rightarrow> exn + string"

text \<open>The state of a run: the database behind the handle, and the calls made so far.\<close>

record 'db world =
  store :: 'db
  calls :: "call list"

text \<open>
  The result of a statement: \<open>None\<close> when it completes, \<open>Some e\<close> when it raises \<open>e\<close>,
  and the state it leaves.
\<close>

type_synonym 'db outcome = "exn option \<times> 'db world"

definition issue :: "'db env \<Rightarrow> call \<Rightarrow> 'db world \<Rightarrow> 'db outcome" where
  "issue env c w =
     (case respond env c (store w) of
        (r, s) \<Rightarrow> (r, \<lparr>store = s, calls = calls w @ [c]\<rparr>))"

text \<open>Sequencing: the next statement runs only when the one before did not raise.\<close>

definition and_then :: "'db outcome \<Rightarrow> ('db world \<Rightarrow> 'db outcome) \<Rightarrow> 'db outcome" where
  "and_then r f = (case r of (Some e, w) \<Rightarrow> (Some e, w) | (None, w) \<Rightarrow> f w)"

text \<open>
  Leaving a \<open>with\<close> block whose \<open>__exit__\<close> returns a false value: \<open>__exit__\<close> runs
  whether the body raised or not; when \<open>__exit__\<close> raises, its exception is the one that
  travels on, otherwise the body's result stands.
\<close>

definition with_exit :: "'db outcome \<Rightarrow> ('db world \<Rightarrow> 'db outcome) \<Rightarrow> 'db outcome" where
  "with_exit r f =
     (case r of (res, w) \<Rightarrow>
        (case f w of (Some e, w') \<Rightarrow> (Some e, w') | (None, w') \<Rightarrow> (res, w')))"

text \<open>
  A list of calls made one after the other, each only when the one before completed.
\<close>

fun played :: "'db env \<Rightarrow> call list \<Rightarrow> 'db world \<Rightarrow> 'db outcome" where
  "played env [] w = (None, w)"
| "played env (c # cs) w = and_then (issue env c w) (played env cs)"

text \<open>
  A result whose calls are the calls of \<open>w\<close> followed by calls from the set \<open>S\<close> only.
\<close>

definition extends :: "'db world \<Rightarrow> call set \<Rightarrow> 'db outcome \<Rightarrow> bool" where
  "extends w S r = (\<exists>new. calls (snd r) = calls w @ new \<and> set new \<subseteq> S)"

section \<open>\<open>fast_to_sql\<close>\<close>

text \<open>
  The inner function \<open>upload_via_conn\<close> (lines 32-48), with the variables of the
  enclosing call it reads as parameters.
\<close>

definition upload_via_conn ::
  "'db env \<Rightarrow> dataframe \<Rightarrow> label list \<Rightarrow> bool \<Rightarrow> string \<Rightarrow> string \<Rightarrow> string list \<Rightarrow>
   'db world \<Rightarrow> 'db outcome" where
  "upload_via_conn env df cols index if_exists full_name colnames w =
     (case to_csv env df cols index of
        Inl e \<Rightarrow> (Some e, w)
      | Inr csv \<Rightarrow>
          (case issue env Cursor w of
             (Some e, w1) \<Rightarrow> (Some e, w1)
           | (None, w1) \<Rightarrow>
               with_exit
                 (and_then
                    (if if_exists = ''replace''
                     then issue env (CurExecute (''DELETE FROM '' @ full_name @ '';'')) w1
                     else (None, w1))
                    (\<lambda>w2. and_then (issue env (CopyFrom csv full_name colnames '''') w2)
                       (issue env Commit)))
                 (issue env CursorClose)))"

text \<open>Lines 26-27: the columns given, or the index names and the columns of the frame.\<close>

definition chosen_cols :: "dataframe \<Rightarrow> bool \<Rightarrow> label list option \<Rightarrow> label list" where
  "chosen_cols df index cols =
     (case cols of
        None \<Rightarrow> (if index then index_names df @ map Some (list_df df) else map Some (list_df df))
      | Some cs \<Rightarrow> cs)"

definition quoted :: "string \<Rightarrow> string" where
  "quoted x = ''\"'' @ x @ ''\"''"

definition full_table_name :: "string \<Rightarrow> string option \<Rightarrow> string" where
  "full_table_name name schema = (case schema of None \<Rightarrow> name | Some s \<Rightarrow> s @ ''.'' @ name)"

definition create_query :: "string \<Rightarrow> string \<Rightarrow> string \<Rightarrow> bool \<Rightarrow> string" where
  "create_query sch name full_name temp =
     py_replace (quoted name) full_name
       (py_replace ''CREATE TABLE''
          (if temp then ''CREATE TEMP TABLE'' else ''CREATE TABLE IF NOT EXISTS'') sch)"

text \<open>
  Lines 50-61: the drop under \<open>if_exists == "replace"\<close>, and the create statement made
  from the schema text of pandas.
\<close>

definition create_table_step ::
  "'db env \<Rightarrow> dataframe \<Rightarrow> string \<Rightarrow> string \<Rightarrow> string option \<Rightarrow> bool \<Rightarrow> 'db world \<Rightarrow>
   'db outcome" where
  "create_table_step env df name if_exists schema temp w =
     (let full_name = full_table_name name schema
      in and_then
           (if if_exists = ''replace''
            then issue env (Execute (''DROP TABLE IF EXISTS '' @ full_name @ '';'')) w
            else (None, w))
           (\<lambda>w1. case get_schema env df name of
                Inl e \<Rightarrow> (Some e, w1)
              | Inr sch \<Rightarrow> issue env (Execute (create_query sch name full_name temp)) w1))"

text \<open>
  The whole function: the column list and the names (lines 26-29), the create step, and
  the branch on the type of \<open>conn\<close> (lines 64-70).
\<close>

definition fast_to_sql ::
  "'db env \<Rightarrow> dataframe \<Rightarrow> string \<Rightarrow> bool \<Rightarrow> string \<Rightarrow> label list option \<Rightarrow> string option \<Rightarrow>
   bool \<Rightarrow> 'db world \<Rightarrow> 'db outcome" where
  "fast_to_sql env df name index if_exists cols schema temp w =
     (let cols' = chosen_cols df index cols;
          colnames = map (\<lambda>x. quoted (py_str x)) cols';
          full_name = full_table_name name schema
      in and_then (create_table_step env df name if_exists schema temp w)
           (\<lambda>w2. case kind env of
                Engine \<Rightarrow>
                  (case issue env Connect w2 of
                     (Some e, w3) \<Rightarrow> (Some e, w3)
                   | (None, w3) \<Rightarrow>
                       with_exit
                         (upload_via_conn env df cols' index if_exists full_name colnames w3)
                         (issue env ConnClose))
              | Connection \<Rightarrow>
                  upload_via_conn env df cols' index if_exists full_name colnames w2
              | Other t \<Rightarrow>
                  (Some (ValueError [''Don't know how to handle conn with type:'', t]), w2)))"

section \<open>\<open>TempTable\<close>\<close>

text \<open>The keyword arguments \<open>**kw\<close> handed on to \<open>fast_to_sql\<close>, with its defaults.\<close>

record fast_kw =
  kw_index :: bool
  kw_if_exists :: string
  kw_cols :: "label list option"
  kw_schema :: "string option"
  kw_temp :: bool

definition default_kw :: fast_kw where
  "default_kw =
     \<lparr>kw_index = False, kw_if_exists = ''append'', kw_cols = None, kw_schema = None,
      kw_temp = False\<rparr>"

text \<open>The fields \<open>__init__\<close> stores (\<open>self.conn\<close> is the environment's handle).\<close>

record TempTable =
  tt_df :: dataframe
  tt_table_name :: string
  tt_destroy :: bool
  tt_kw :: fast_kw

definition try_empty_table :: "'db env \<Rightarrow> TempTable \<Rightarrow> 'db world \<Rightarrow> 'db outcome" where
  "try_empty_table env tt w =
     (case issue env (Execute (''TRUNCATE TABLE '' @ tt_table_name tt @ '';'')) w of
        (Some e, w') \<Rightarrow> (None, w')
      | (None, w') \<Rightarrow> (None, w'))"

definition TempTable_enter :: "'db env \<Rightarrow> TempTable \<Rightarrow> 'db world \<Rightarrow> 'db outcome" where
  "TempTable_enter env tt w =
     and_then (try_empty_table env tt w)
       (fast_to_sql env (tt_df tt) (tt_table_name tt) (kw_index (tt_kw tt))
          (kw_if_exists (tt_kw tt)) (kw_cols (tt_kw tt)) (kw_schema (tt_kw tt))
          (kw_temp (tt_kw tt)))"

definition TempTable_exit :: "'db env \<Rightarrow> TempTable \<Rightarrow> 'db world \<Rightarrow> 'db outcome" where
  "TempTable_exit env tt w =
     and_then (try_empty_table env tt w)
       (\<lambda>w1. if tt_destroy tt
             then issue env (Execute (''DROP TABLE IF EXISTS '' @ tt_table_name tt @ '';'')) w1
             else (None, w1))"

text \<open>
  \<open>with TempTable(df, table_name, conn, destroy, **kw): body\<close>. When \<open>__enter__\<close> raises,
  neither the body nor \<open>__exit__\<close> runs. \<open>__exit__\<close> returns \<open>None\<close>.
\<close>

definition with_TempTable ::
  "'db env \<Rightarrow> TempTable \<Rightarrow> ('db world \<Rightarrow> 'db outcome) \<Rightarrow> 'db world \<Rightarrow> 'db outcome" where
  "with_TempTable env tt body w =
     (case TempTable_enter env tt w of
        (Some e, w1) \<Rightarrow> (Some e, w1)
      | (None, w1) \<Rightarrow> with_exit (body w1) (TempTable_exit env tt))"

section \<open>\<open>draft_sql_ddl_statement\<close>\<close>

text \<open>
  \<open>_dtype_map\<close> (lines 126-134): the dictionary from dtype to PostgreSQL type. The key
  for zone-aware timestamps is \<open>DatetimeTZDtype(unit="ns", tz="UTC")\<close> only.
\<close>

fun dtype_map :: "dtype \<Rightarrow> string option" where
  "dtype_map Float64 = Some ''numeric(12, 6)''"
| "dtype_map Float32 = Some ''numeric(10, 4)''"
| "dtype_map Int64 = Some ''INT''"
| "dtype_map Int32 = Some ''SMALLINT''"
| "dtype_map Datetime64ns = Some ''TIMESTAMP WITHOUT TIME ZONE''"
| "dtype_map (DatetimeTZ unit tz) =
     (if unit = ''ns'' \<and> tz = ''UTC'' then Some ''TIMESTAMPTZ'' else None)"
| "dtype_map Object = Some ''TEXT''"
| "dtype_map Bool = None"
| "dtype_map (OtherDtype s) = None"

text \<open>
  \<open>dict(df.dtypes)[c]\<close>. \<open>dict\<close> reads the Series through \<open>keys()\<close> and \<open>[]\<close>, so a label
  that one column carries gives that column's dtype, and a label that several columns
  carry gives the Series of their dtypes.
\<close>

datatype dtypes_value = OneDtype dtype | SubSeries

definition dtypes_getitem :: "dataframe \<Rightarrow> string \<Rightarrow> exn + dtypes_value" where
  "dtypes_getitem df c =
     (case filter (\<lambda>(n, dt). n = c) (columns df) of
        [] \<Rightarrow> Inl (KeyError [c])
      | [(n, dt)] \<Rightarrow> Inr (OneDtype dt)
      | _ \<Rightarrow> Inr SubSeries)"

text \<open>The two characters \<open>''\<close> of the SQL text \<open>E''\<close>.\<close>

definition two_quotes :: string where
  "two_quotes = [CHR 0x27, CHR 0x27]"

text \<open>
  The loop of lines 161-167 over \<open>list(df)\<close>, with the two lists it appends to. The test
  \<open>dt not in _dtype_map\<close> hashes \<open>dt\<close>; a Series cannot be hashed (TypeError).
\<close>

fun ddl_loop ::
  "dataframe \<Rightarrow> string \<Rightarrow> string list \<Rightarrow> string list \<times> string list \<Rightarrow>
   exn + (string list \<times> string list)" where
  "ddl_loop df table_name [] (cols, col_comments) = Inr (cols, col_comments)"
| "ddl_loop df table_name (c # cs) (cols, col_comments) =
     (case dtypes_getitem df c of
        Inl e \<Rightarrow> Inl e
      | Inr SubSeries \<Rightarrow> Inl (TypeError [''unhashable type: 'Series'' @ [CHR 0x27]])
      | Inr (OneDtype dt) \<Rightarrow>
          (case dtype_map dt of
             None \<Rightarrow>
               Inl (ValueError
                 ['' Don't know how to handle dtype '' @ dtype_str dt @ '' for column '' @ c
                  @ ''. Add it!''])
           | Some ty \<Rightarrow>
               ddl_loop df table_name cs
                 (cols @ [quoted c @ '' '' @ ty],
                  col_comments
                  @ [''COMMENT ON COLUMN '' @ table_name @ ''.'' @ c @ '' is E'' @ two_quotes
                     @ '';''])))"

subsection \<open>\<open>textwrap.dedent\<close>\<close>

text \<open>\<open>s.split(d)\<close> for a separator of one character.\<close>

fun split_on :: "char \<Rightarrow> string \<Rightarrow> string list" where
  "split_on d [] = [[]]"
| "split_on d (c # cs) =
     (if c = d then [] # split_on d cs
      else (case split_on d cs of [] \<Rightarrow> [[c]] | l # ls \<Rightarrow> (c # l) # ls))"

definition blank_char :: "char \<Rightarrow> bool" where
  "blank_char c = (c = CHR '' '' \<or> c = CHR 0x09)"

text \<open>
  The loop of \<open>dedent\<close> that narrows the margin: the first indent is taken as it is; an
  indent that starts with the margin leaves it; an indent the margin starts with
  becomes the margin; otherwise the margin is cut at the first position where the two
  differ.
\<close>

fun first_diff :: "string \<Rightarrow> string \<Rightarrow> nat option" where
  "first_diff (x # xs) (y # ys) = (if x \<noteq> y then Some 0 else map_option Suc (first_diff xs ys))"
| "first_diff xs ys = None"

definition margin_step :: "string \<Rightarrow> string option \<Rightarrow> string option" where
  "margin_step indent margin =
     (case margin of
        None \<Rightarrow> Some indent
      | Some m \<Rightarrow>
          if prefix m indent then Some m
          else if prefix indent m then Some indent
          else (case first_diff m indent of Some i \<Rightarrow> Some (take i m) | None \<Rightarrow> Some m))"

text \<open>
  \<open>textwrap.dedent(text)\<close> of CPython up to 3.13. Lines are the pieces between newline
  characters. A line of blanks and tabs only is made empty; the indents are the leading
  blanks and tabs of the lines that are not empty then; the margin found is removed from
  the front of every line that starts with it.
\<close>

definition textwrap_dedent :: "string \<Rightarrow> string" where
  "textwrap_dedent text =
     (let lines = map (\<lambda>l. if l \<noteq> [] \<and> list_all blank_char l then [] else l)
                    (split_on CHR 0x0A text);
          indents = map (takeWhile blank_char) (filter (\<lambda>l. l \<noteq> []) lines);
          margin = fold margin_step indents None
      in case margin of
           None \<Rightarrow> join ''\<newline>'' lines
         | Some m \<Rightarrow>
             if m = [] then join ''\<newline>'' lines
             else join ''\<newline>''
                    (map (\<lambda>l. if prefix m l then drop (length m) l else l) lines))"

text \<open>The f-string of lines 172-180.\<close>

definition ddl_template :: "string \<Rightarrow> string \<Rightarrow> string \<Rightarrow> string" where
  "ddl_template table_name col_str comment_str =
     ''\<newline>    CREATE TABLE '' @ table_name @ '' (\<newline>        '' @ col_str
     @ ''\<newline>    );\<newline>\<newline>    COMMENT ON TABLE '' @ table_name @ '' is E'' @ two_quotes
     @ '';\<newline>\<newline>    '' @ comment_str @ ''\<newline>    ''"

definition draft_sql_ddl_statement :: "dataframe \<Rightarrow> string option \<Rightarrow> exn + string" where
  "draft_sql_ddl_statement df table_name =
     (let table_name' = (case table_name of None \<Rightarrow> ''REPLACE_NAME'' | Some t \<Rightarrow> t)
      in case ddl_loop df table_name' (list_df df) ([], []) of
           Inl e \<Rightarrow> Inl e
         | Inr (cols, col_comments) \<Rightarrow>
             Inr (textwrap_dedent
                    (ddl_template table_name' (join '',\<newline>        '' cols)
                       (join ''\<newline>    '' col_comments))))"

subsection \<open>The text of the statement, line by line\<close>

text \<open>
  What the loop appends for a column with a mapped dtype: its declaration and its
  comment statement.
\<close>

definition column_decl :: "string \<times> dtype \<Rightarrow> string" where
  "column_decl p =
     quoted (fst p) @ '' '' @ (case dtype_map (snd p) of None \<Rightarrow> [] | Some ty \<Rightarrow> ty)"

definition column_comment :: "string \<Rightarrow> string \<times> dtype \<Rightarrow> string" where
  "column_comment table_name p =
     ''COMMENT ON COLUMN '' @ table_name @ ''.'' @ fst p @ '' is E'' @ two_quotes @ '';''"

text \<open>A comma behind every text but the last.\<close>

fun with_commas :: "string list \<Rightarrow> string list" where
  "with_commas [] = []"
| "with_commas [d] = [d]"
| "with_commas (d # e # ds) = (d @ '','') # with_commas (e # ds)"

text \<open>
  The lines of the statement for a table name and the columns: the lines of the
  f-string, four blanks shorter; a frame without columns leaves two empty lines where
  the declarations and the comments would be.
\<close>

definition ddl_lines :: "string \<Rightarrow> (string \<times> dtype) list \<Rightarrow> string list" where
  "ddl_lines table_name cols =
     [[], ''CREATE TABLE '' @ table_name @ '' ('']
     @ (if cols = [] then [[]] else map (\<lambda>d. ''    '' @ d) (with_commas (map column_decl cols)))
     @ ['');'', [], ''COMMENT ON TABLE '' @ table_name @ '' is E'' @ two_quotes @ '';'', []]
     @ (if cols = [] then [[]] else map (column_comment table_name) cols)
     @ [[]]"

section \<open>A reference environment\<close>

text \<open>
  One environment to run the module in: a PostgreSQL session as one connection sees it,
  and the pandas functions on the frames used below. The theorems about the module hold
  for every environment; this one gives them concrete runs.
\<close>

subsection \<open>The session\<close>

text \<open>
  The tables by the name a statement writes for them, each with its rows, and whether
  the connection is still up. On a connection that is down every call raises
  \<open>OperationalError\<close>, but for the two releases, which do nothing then.
\<close>

record pg =
  tables :: "string \<Rightarrow> cell list list option"
  up :: bool

definition OperationalError :: exn where
  "OperationalError = Exc ''OperationalError'' [''server closed the connection unexpectedly'']"

definition UndefinedTable :: "string \<Rightarrow> exn" where
  "UndefinedTable t = Exc ''ProgrammingError'' [''relation does not exist'', t]"

definition DuplicateTable :: "string \<Rightarrow> exn" where
  "DuplicateTable t = Exc ''ProgrammingError'' [''relation already exists'', t]"

definition BadCopyData :: exn where
  "BadCopyData = Exc ''DataError'' [''extra or missing data for the columns of the copy'']"

definition SyntaxError :: "string \<Rightarrow> exn" where
  "SyntaxError q = Exc ''ProgrammingError'' [''syntax error'', q]"

text \<open>The table name of a statement \<open>kw name;\<close>.\<close>

definition stmt_arg :: "string \<Rightarrow> string \<Rightarrow> string option" where
  "stmt_arg kw q =
     (if prefix kw q \<and> q \<noteq> kw \<and> last q = CHR '';''
      then Some (butlast (drop (length kw) q)) else None)"

text \<open>The table name of a create statement that starts, after white space, with \<open>kw\<close>.\<close>

definition create_arg :: "string \<Rightarrow> string \<Rightarrow> string option" where
  "create_arg kw q =
     (let q' = dropWhile (\<lambda>c. c = CHR 0x0A \<or> blank_char c) q
      in if prefix kw q' then Some (takeWhile (\<lambda>c. c \<noteq> CHR '' '') (drop (length kw) q'))
         else None)"

text \<open>
  The statements the module writes, as PostgreSQL runs them: \<open>DROP TABLE IF EXISTS\<close>
  removes the table and accepts a missing one; \<open>TRUNCATE TABLE\<close> and \<open>DELETE FROM\<close>
  empty the table and raise for a missing one; \<open>CREATE TABLE IF NOT EXISTS\<close> makes the
  table when it is missing; \<open>CREATE TEMP TABLE\<close> raises when the name is taken.
\<close>

definition pg_sql :: "string \<Rightarrow> pg \<Rightarrow> exn option \<times> pg" where
  "pg_sql q s =
     (if \<not> up s then (Some OperationalError, s)
      else case stmt_arg ''DROP TABLE IF EXISTS '' q of
        Some t \<Rightarrow> (None, s\<lparr>tables := (tables s)(t := None)\<rparr>)
      | None \<Rightarrow>
     (case (if stmt_arg ''TRUNCATE TABLE '' q = None then stmt_arg ''DELETE FROM '' q
            else stmt_arg ''TRUNCATE TABLE '' q) of
        Some t \<Rightarrow>
          (if tables s t = None then (Some (UndefinedTable t), s)
           else (None, s\<lparr>tables := (tables s)(t \<mapsto> [])\<rparr>))
      | None \<Rightarrow>
     (case create_arg ''CREATE TABLE IF NOT EXISTS '' q of
        Some t \<Rightarrow>
          (if tables s t = None then (None, s\<lparr>tables := (tables s)(t \<mapsto> [])\<rparr>)
           else (None, s))
      | None \<Rightarrow>
     (case create_arg ''CREATE TEMP TABLE '' q of
        Some t \<Rightarrow>
          (if tables s t = None then (None, s\<lparr>tables := (tables s)(t \<mapsto> [])\<rparr>)
           else (Some (DuplicateTable t), s))
      | None \<Rightarrow> (Some (SyntaxError q), s)))))"

text \<open>
  \<open>COPY ... FROM STDIN\<close> in text format: one row for each line of the payload, the
  fields between the delimiters, and a field that equals the null text read as null.
  Quotes mean nothing in this format. A line that does not have one field for each
  column of the copy makes the whole copy fail (DataError).
\<close>

definition copy_field :: "string \<Rightarrow> string \<Rightarrow> cell" where
  "copy_field null f = (if f = null then None else Some f)"

definition copy_rows :: "string \<Rightarrow> string \<Rightarrow> cell list list" where
  "copy_rows null payload =
     map (\<lambda>l. map (copy_field null) (split_on CHR 0x09 l))
       (butlast (split_on CHR 0x0A payload))"

fun pg_respond :: "call \<Rightarrow> pg \<Rightarrow> exn option \<times> pg" where
  "pg_respond (Execute q) s = pg_sql q s"
| "pg_respond (CurExecute q) s = pg_sql q s"
| "pg_respond (CopyFrom payload t cols null) s =
     (if \<not> up s then (Some OperationalError, s)
      else case tables s t of
        None \<Rightarrow> (Some (UndefinedTable t), s)
      | Some rows \<Rightarrow>
          if list_all (\<lambda>r. length r = length cols) (copy_rows null payload)
          then (None, s\<lparr>tables := (tables s)(t \<mapsto> rows @ copy_rows null payload)\<rparr>)
          else (Some BadCopyData, s))"
| "pg_respond CursorClose s = (None, s)"
| "pg_respond ConnClose s = (None, s)"
| "pg_respond c s = (if up s then (None, s) else (Some OperationalError, s))"

subsection \<open>The pandas functions\<close>

text \<open>
  \<open>to_csv\<close> with \<open>sep="\t"\<close>, \<open>header=False\<close>, \<open>index=False\<close> and the defaults otherwise
  (\<open>na_rep=""\<close>): the columns asked for are picked by label (KeyError for a label the
  frame does not have), a missing cell is written as the empty text, the fields of a
  row are joined by tabs and every row ends with a newline.
\<close>

definition csv_field :: "cell \<Rightarrow> string" where
  "csv_field c = (case c of None \<Rightarrow> [] | Some s \<Rightarrow> s)"

definition positions_of :: "dataframe \<Rightarrow> label \<Rightarrow> nat list" where
  "positions_of df c = filter (\<lambda>i. Some (list_df df ! i) = c) [0..<length (list_df df)]"

definition cell_at :: "cell list \<Rightarrow> nat \<Rightarrow> cell" where
  "cell_at row i = (if i < length row then row ! i else None)"

definition frame_to_csv :: "dataframe \<Rightarrow> label list \<Rightarrow> bool \<Rightarrow> exn + string" where
  "frame_to_csv df cols index =
     (case filter (\<lambda>c. positions_of df c = []) cols of
        c # _ \<Rightarrow> Inl (KeyError [py_str c])
      | [] \<Rightarrow>
          Inr (concat (map (\<lambda>row. join [CHR 0x09]
                              (map (\<lambda>i. csv_field (cell_at row i))
                                 (concat (map (positions_of df) cols)))
                            @ ''\<newline>'')
                         (cells df))))"

text \<open>
  The schema text of \<open>get_schema\<close> for a frame whose table and column names need no
  quotes, with the SQL types pandas picks for the dtypes.
\<close>

fun sql_type :: "dtype \<Rightarrow> string" where
  "sql_type Float64 = ''FLOAT(53)''"
| "sql_type Float32 = ''FLOAT(23)''"
| "sql_type Int64 = ''BIGINT''"
| "sql_type Int32 = ''INTEGER''"
| "sql_type Datetime64ns = ''TIMESTAMP WITHOUT TIME ZONE''"
| "sql_type (DatetimeTZ unit tz) = ''TIMESTAMP WITH TIME ZONE''"
| "sql_type Bool = ''BOOLEAN''"
| "sql_type dt = ''TEXT''"

definition frame_schema :: "dataframe \<Rightarrow> string \<Rightarrow> exn + string" where
  "frame_schema df name =
     Inr (''\<newline>CREATE TABLE '' @ name @ '' (\<newline>'' @ [CHR 0x09]
          @ join ('', \<newline>'' @ [CHR 0x09]) (map (\<lambda>(c, dt). c @ '' '' @ sql_type dt) (columns df))
          @ ''\<newline>)\<newline>\<newline>'')"

definition pg_env :: "handle_kind \<Rightarrow> pg env" where
  "pg_env k = \<lparr>kind = k, respond = pg_respond, get_schema = frame_schema, to_csv = frame_to_csv\<rparr>"

text \<open>The same environment on a connection that is never lost.\<close>

definition steady_env :: "handle_kind \<Rightarrow> pg env" where
  "steady_env k =
     \<lparr>kind = k, respond = (\<lambda>c s. pg_respond c (s\<lparr>up := True\<rparr>)), get_schema = frame_schema,
      to_csv = frame_to_csv\<rparr>"

subsection \<open>Frames and states of the runs below\<close>

text \<open>
  The frame of the example scenario: \<open>county:text, value:float64\<close> with the rows
  \<open>("Dade", 120.5)\<close> and \<open>("Leon", None)\<close>.
\<close>

definition beds :: dataframe where
  "beds =
     \<lparr>index_names = [None],
      columns = [(''county'', Object), (''value'', Float64)],
      cells = [[Some ''Dade'', Some ''120.5''], [Some ''Leon'', None]]\<rparr>"

text \<open>
  The same frame with a county whose name holds a tab; \<open>to_csv\<close> writes such a value
  in quotes, with the tab inside.
\<close>

definition tabbed :: dataframe where
  "tabbed =
     \<lparr>index_names = [None],
      columns = [(''county'', Object), (''value'', Float64)],
      cells = [[Some ''Dade'', Some ''120.5''],
               [Some (''\"Palm'' @ [CHR 0x09] @ ''Beach\"''), Some ''3.0'']]\<rparr>"

text \<open>A session with no table, and one where \<open>beds_test\<close> holds an old row.\<close>

text \<open>A frame with a column of booleans, a dtype that is no key of \<open>_dtype_map\<close>.\<close>

definition flags :: dataframe where
  "flags =
     \<lparr>index_names = [None],
      columns = [(''county'', Object), (''open'', Bool)],
      cells = [[Some ''Dade'', Some ''True'']]\<rparr>"

text \<open>
  A frame with a column of complex numbers, and an environment for it: pandas has no SQL
  type for them, and \<open>get_schema\<close> raises a ValueError.
\<close>

definition waves :: dataframe where
  "waves =
     \<lparr>index_names = [None],
      columns = [(''z'', OtherDtype ''complex128'')],
      cells = [[Some ''(1+2j)'']]\<rparr>"

definition complex_env :: "pg env" where
  "complex_env =
     \<lparr>kind = Connection, respond = pg_respond,
      get_schema = (\<lambda>df name. Inl (ValueError [''Complex datatypes not supported''])),
      to_csv = frame_to_csv\<rparr>"

text \<open>A frame of two text columns with an empty text and a missing value.\<close>

definition remarks :: dataframe where
  "remarks =
     \<lparr>index_names = [None],
      columns = [(''county'', Object), (''note'', Object)],
      cells = [[Some ''Dade'', Some []], [Some ''Leon'', None]]\<rparr>"

text \<open>
  Two frames in which a label repeats: one with a column of booleans behind the pair,
  one whose dtypes are all keys of \<open>_dtype_map\<close>.
\<close>

definition twins :: dataframe where
  "twins =
     \<lparr>index_names = [None],
      columns = [(''beds'', Int64), (''beds'', Int64), (''open'', Bool)],
      cells = [[Some ''1'', Some ''2'', Some ''True'']]\<rparr>"

definition doubled :: dataframe where
  "doubled =
     \<lparr>index_names = [None],
      columns = [(''beds'', Int64), (''beds'', Float64)],
      cells = [[Some ''1'', Some ''2.5'']]\<rparr>"

definition beds_session :: "bool \<Rightarrow> TempTable" where
  "beds_session destroy =
     \<lparr>tt_df = beds, tt_table_name = ''beds_test'', tt_destroy = destroy, tt_kw = default_kw\<rparr>"

definition fresh :: "pg world" where
  "fresh = \<lparr>store = \<lparr>tables = (\<lambda>t. None), up = True\<rparr>, calls = []\<rparr>"

definition stale :: "pg world" where
  "stale =
     \<lparr>store = \<lparr>tables = [''beds_test'' \<mapsto> [[Some ''Polk'', Some ''7.0'']]], up = True\<rparr>,
      calls = []\<rparr>"

text \<open>
  Two bodies for a \<open>with TempTable(...)\<close> block: one that raises and leaves the session
  alone, and one that raises because the connection was lost.
\<close>

definition failing_body :: "pg world \<Rightarrow> pg outcome" where
  "failing_body w = (Some (Exc ''RuntimeError'' [''body failed'']), w)"

definition lost_connection_body :: "pg world \<Rightarrow> pg outcome" where
  "lost_connection_body w =
     (Some (Exc ''InterfaceError'' [''connection already closed'']),
      w\<lparr>store := (store w)\<lparr>up := False\<rparr>\<rparr>)"

section \<open>Properties\<close>

subsection \<open>Sequencing and calls\<close>

lemma and_then_None [simp]: "and_then (None, w) f = f w"
  by (simp add: and_then_def)

lemma and_then_Some [simp]: "and_then (Some e, w) f = (Some e, w)"
  by (simp add: and_then_def)

lemma and_then_fst_None: "fst r = None \<Longrightarrow> and_then r f = f (snd r)"
  by (cases r) (simp add: and_then_def)

lemma issue_store: "store (snd (issue env c w)) = snd (respond env c (store w))"
  by (simp add: issue_def split: prod.splits)

lemma issue_fst: "fst (issue env c w) = fst (respond env c (store w))"
  by (simp add: issue_def split: prod.splits)

lemma issue_calls: "calls (snd (issue env c w)) = calls w @ [c]"
  by (simp add: issue_def split: prod.splits)

subsection \<open>The truncate of a TempTable\<close>

text \<open>
  C8. \<open>_try_empty_table\<close> never raises, whatever the handle does with the statement
  (the table missing, or any other failure): it issues the one \<open>TRUNCATE TABLE\<close>
  statement and returns. So \<open>__enter__\<close> always goes on to \<open>fast_to_sql\<close> and
  \<open>__exit__\<close> always goes on to its drop (or returns), from the state the attempt left.
\<close>

theorem try_empty_table_swallows:
  "fst (try_empty_table env tt w) = None
   \<and> snd (try_empty_table env tt w)
       = snd (issue env (Execute (''TRUNCATE TABLE '' @ tt_table_name tt @ '';'')) w)
   \<and> TempTable_enter env tt w
       = fast_to_sql env (tt_df tt) (tt_table_name tt) (kw_index (tt_kw tt))
           (kw_if_exists (tt_kw tt)) (kw_cols (tt_kw tt)) (kw_schema (tt_kw tt))
           (kw_temp (tt_kw tt)) (snd (try_empty_table env tt w))
   \<and> TempTable_exit env tt w
       = (if tt_destroy tt
          then issue env (Execute (''DROP TABLE IF EXISTS '' @ tt_table_name tt @ '';''))
                 (snd (try_empty_table env tt w))
          else (None, snd (try_empty_table env tt w)))"
proof -
  have a: "fst (try_empty_table env tt w) = None"
    by (simp add: try_empty_table_def split: prod.splits option.splits)
  have b: "snd (try_empty_table env tt w)
       = snd (issue env (Execute (''TRUNCATE TABLE '' @ tt_table_name tt @ '';'')) w)"
    by (simp add: try_empty_table_def split: prod.splits option.splits)
  show ?thesis
    using a b by (simp add: TempTable_enter_def TempTable_exit_def and_then_fst_None)
qed

text \<open>
  On a session without the table the statement raises (the relation does not exist),
  and the attempt returns all the same.
\<close>

theorem try_empty_table_swallows_witness:
  "fst (respond (pg_env Connection) (Execute ''TRUNCATE TABLE beds_test;'') (store fresh))
     = Some (UndefinedTable ''beds_test'')
   \<and> fst (try_empty_table (pg_env Connection)
            \<lparr>tt_df = beds, tt_table_name = ''beds_test'', tt_destroy = False,
              tt_kw = default_kw\<rparr> fresh) = None"
proof -
  have "fst (respond (pg_env Connection) (Execute ''TRUNCATE TABLE beds_test;'') (store fresh))
     = Some (UndefinedTable ''beds_test'')"
    by code_simp
  then show ?thesis
    using try_empty_table_swallows [of "pg_env Connection"
        "\<lparr>tt_df = beds, tt_table_name = ''beds_test'', tt_destroy = False, tt_kw = default_kw\<rparr>"
        fresh]
    by simp
qed

subsection \<open>A handle of an unknown type\<close>

text \<open>
  C10. For a \<open>conn\<close> that is neither an Engine nor a Connection and on which the
  statements of the create step complete (the drop under \<open>if_exists == "replace"\<close>, and
  the create statement), \<open>fast_to_sql\<close> raises the ValueError about the handle only
  after those statements have been executed: the state the caller gets back is the one
  the create step left, with the drop (under replace) and the create among the calls.
\<close>

theorem other_handle_raises_after_ddl:
  assumes k: "kind env = Other t"
    and ddl: "fst (create_table_step env df name if_exists schema temp w) = None"
  shows "fast_to_sql env df name index if_exists cols schema temp w
         = (Some (ValueError [''Don't know how to handle conn with type:'', t]),
            snd (create_table_step env df name if_exists schema temp w))
       \<and> (\<exists>sch. get_schema env df name = Inr sch
            \<and> calls (snd (create_table_step env df name if_exists schema temp w))
                = calls w
                  @ (if if_exists = ''replace''
                     then [Execute (''DROP TABLE IF EXISTS '' @ full_table_name name schema @ '';'')]
                     else [])
                  @ [Execute (create_query sch name (full_table_name name schema) temp)])"
proof -
  have first: "fast_to_sql env df name index if_exists cols schema temp w
         = (Some (ValueError [''Don't know how to handle conn with type:'', t]),
            snd (create_table_step env df name if_exists schema temp w))"
    using k ddl by (simp add: fast_to_sql_def Let_def and_then_fst_None)
  obtain sch where sch: "get_schema env df name = Inr sch"
    using ddl
    by (cases "get_schema env df name")
       (auto simp: create_table_step_def Let_def and_then_def
             split: prod.splits option.splits if_splits)
  have "calls (snd (create_table_step env df name if_exists schema temp w))
                = calls w
                  @ (if if_exists = ''replace''
                     then [Execute (''DROP TABLE IF EXISTS '' @ full_table_name name schema @ '';'')]
                     else [])
                  @ [Execute (create_query sch name (full_table_name name schema) temp)]"
    using ddl sch
    by (auto simp: create_table_step_def Let_def and_then_def issue_def
             split: prod.splits option.splits if_splits)
  with first sch show ?thesis by blast
qed

text \<open>
  A run with a dictionary as \<open>conn\<close> (a mock that takes the statements) on a session
  whose table held a row: the ValueError reaches the caller, and the table has been
  dropped and made again, empty.
\<close>

theorem other_handle_raises_after_ddl_witness:
  "tables (store stale) ''beds_test'' = Some [[Some ''Polk'', Some ''7.0'']]
   \<and> fst (fast_to_sql (pg_env (Other ''<class 'dict'>'')) beds ''beds_test'' False ''replace''
           None None False stale)
       = Some (ValueError [''Don't know how to handle conn with type:'', ''<class 'dict'>''])
   \<and> tables (store (snd (fast_to_sql (pg_env (Other ''<class 'dict'>'')) beds ''beds_test''
                          False ''replace'' None None False stale))) ''beds_test''
       = Some []"
proof -
  have k: "kind (pg_env (Other ''<class 'dict'>'')) = Other ''<class 'dict'>''"
    by (simp add: pg_env_def)
  have ddl: "fst (create_table_step (pg_env (Other ''<class 'dict'>'')) beds ''beds_test''
                 ''replace'' None False stale) = None"
    by code_simp
  have before: "tables (store stale) ''beds_test'' = Some [[Some ''Polk'', Some ''7.0'']]"
    by code_simp
  have after: "tables (store (snd (create_table_step (pg_env (Other ''<class 'dict'>'')) beds
                 ''beds_test'' ''replace'' None False stale))) ''beds_test'' = Some []"
    by code_simp
  show ?thesis
    using other_handle_raises_after_ddl [OF k ddl, of False None] before after by simp
qed

subsection \<open>Runs of calls\<close>

lemma played_append: "played env (xs @ ys) w = and_then (played env xs w) (played env ys)"
proof (induction xs arbitrary: w)
  case Nil
  show ?case by simp
next
  case (Cons c cs)
  show ?case
    by (cases "issue env c w") (auto simp: Cons and_then_def split: option.splits)
qed

lemma played_calls: "played env cs w = (None, w') \<Longrightarrow> calls w' = calls w @ cs"
proof (induction cs arbitrary: w)
  case Nil
  then show ?case by simp
next
  case (Cons c cs)
  obtain r w1 where i: "issue env c w = (r, w1)" by (cases "issue env c w")
  with Cons.prems have r: "r = None" and p: "played env cs w1 = (None, w')"
    by (auto simp: and_then_def split: option.splits)
  have "calls w1 = calls w @ [c]" using issue_calls [of env c w] i by simp
  with Cons.IH [OF p] show ?case by simp
qed

lemma played_Cons_None:
  "played env (c # cs) w = (None, w') \<Longrightarrow>
     fst (respond env c (store w)) = None \<and> played env cs (snd (issue env c w)) = (None, w')"
  by (cases "issue env c w") (auto simp: and_then_def issue_fst [symmetric] split: option.splits)

lemma played_append_None:
  "played env (xs @ ys) w = (None, w') \<Longrightarrow>
     \<exists>w1. played env xs w = (None, w1) \<and> played env ys w1 = (None, w')"
  by (cases "played env xs w") (auto simp: played_append and_then_def split: option.splits)

lemma with_exit_None:
  "fst (with_exit r f) = None \<Longrightarrow> fst r = None \<and> with_exit r f = f (snd r)"
  by (cases r; cases "f (snd r)") (auto simp: with_exit_def split: option.splits)

lemma create_table_step_replace_ok:
  assumes "fst (create_table_step env df name ''replace'' schema temp w) = None"
  shows "\<exists>sch. get_schema env df name = Inr sch
           \<and> create_table_step env df name ''replace'' schema temp w
               = played env [Execute (''DROP TABLE IF EXISTS '' @ full_table_name name schema @ '';''),
                             Execute (create_query sch name (full_table_name name schema) temp)] w"
  using assms
  by (cases "get_schema env df name";
      cases "issue env (Execute (''DROP TABLE IF EXISTS '' @ full_table_name name schema @ '';'')) w")
     (auto simp: create_table_step_def Let_def and_then_def split: option.splits prod.splits)

lemma upload_replace_ok:
  assumes "fst (upload_via_conn env df cs index ''replace'' full cn w) = None"
  shows "\<exists>csv. to_csv env df cs index = Inr csv
           \<and> upload_via_conn env df cs index ''replace'' full cn w
               = played env [Cursor, CurExecute (''DELETE FROM '' @ full @ '';''),
                             CopyFrom csv full cn '''', Commit, CursorClose] w"
proof (cases "to_csv env df cs index")
  case (Inl e)
  with assms show ?thesis by (simp add: upload_via_conn_def)
next
  case (Inr csv)
  obtain r1 w1 where c1: "issue env Cursor w = (r1, w1)" by (cases "issue env Cursor w")
  with assms Inr have r1: "r1 = None"
    by (auto simp: upload_via_conn_def split: option.splits)
  let ?body = "and_then (issue env (CurExecute (''DELETE FROM '' @ full @ '';'')) w1)
                 (\<lambda>w2. and_then (issue env (CopyFrom csv full cn '''') w2) (issue env Commit))"
  have up: "upload_via_conn env df cs index ''replace'' full cn w
              = with_exit ?body (issue env CursorClose)"
    using Inr c1 r1 by (simp add: upload_via_conn_def)
  with assms have b: "fst ?body = None" and e: "with_exit ?body (issue env CursorClose) = issue env CursorClose (snd ?body)"
    using with_exit_None [of ?body "issue env CursorClose"] by simp_all
  obtain r2 w2 where c2: "issue env (CurExecute (''DELETE FROM '' @ full @ '';'')) w1 = (r2, w2)"
    by (cases "issue env (CurExecute (''DELETE FROM '' @ full @ '';'')) w1")
  obtain r3 w3 where c3: "issue env (CopyFrom csv full cn '''') w2 = (r3, w3)"
    by (cases "issue env (CopyFrom csv full cn '''') w2")
  obtain r4 w4 where c4: "issue env Commit w3 = (r4, w4)"
    by (cases "issue env Commit w3")
  obtain r5 w5 where c5: "issue env CursorClose w4 = (r5, w5)"
    by (cases "issue env CursorClose w4")
  from b c2 have r2: "r2 = None" by (auto simp: and_then_def split: option.splits)
  from b c2 r2 c3 have r3: "r3 = None" by (auto simp: and_then_def split: option.splits)
  from b c2 r2 c3 r3 c4 have r4: "r4 = None" by (auto simp: and_then_def split: option.splits)
  have "upload_via_conn env df cs index ''replace'' full cn w = (r5, w5)"
    using up e c2 r2 c3 r3 c4 r4 c5 by simp
  moreover have "played env [Cursor, CurExecute (''DELETE FROM '' @ full @ '';''),
                             CopyFrom csv full cn '''', Commit, CursorClose] w = (r5, w5)"
    using c1 r1 c2 r2 c3 r3 c4 r4 c5 by (cases r5) simp_all
  ultimately show ?thesis using Inr by simp
qed

subsection \<open>A load that replaces\<close>

lemma played_single: "played env [c] w = issue env c w"
  by (cases "issue env c w") (auto simp: and_then_def split: option.splits)




subsection \<open>The calls of the create step and of the upload\<close>

lemma create_table_step_played:
  "get_schema env df name = Inr sch \<Longrightarrow>
     create_table_step env df name if_exists schema temp w
       = played env
           ((if if_exists = ''replace''
             then [Execute (''DROP TABLE IF EXISTS '' @ full_table_name name schema @ '';'')]
             else [])
            @ [Execute (create_query sch name (full_table_name name schema) temp)]) w"
  by (cases "issue env (Execute (''DROP TABLE IF EXISTS '' @ full_table_name name schema @ '';'')) w";
      cases "issue env (Execute (create_query sch name (full_table_name name schema) temp)) w")
     (auto simp: create_table_step_def Let_def and_then_def split: option.splits prod.splits)

lemma upload_via_conn_played:
  "to_csv env df cs index = Inr csv \<Longrightarrow>
     upload_via_conn env df cs index if_exists full cn w
       = (case issue env Cursor w of
            (Some e, w1) \<Rightarrow> (Some e, w1)
          | (None, w1) \<Rightarrow>
              with_exit
                (played env
                   ((if if_exists = ''replace''
                     then [CurExecute (''DELETE FROM '' @ full @ '';'')] else [])
                    @ [CopyFrom csv full cn [], Commit]) w1)
                (issue env CursorClose))"
proof -
  have body: "and_then
           (if if_exists = ''replace''
            then issue env (CurExecute (''DELETE FROM '' @ full @ '';'')) w1 else (None, w1))
           (\<lambda>w2. and_then (issue env (CopyFrom csv full cn []) w2) (issue env Commit))
         = played env
             ((if if_exists = ''replace''
               then [CurExecute (''DELETE FROM '' @ full @ '';'')] else [])
              @ [CopyFrom csv full cn [], Commit]) w1" for w1
  proof (cases "if_exists = ''replace''")
    case True
    then show ?thesis
      by (cases "issue env (CurExecute (''DELETE FROM '' @ full @ '';'')) w1")
         (auto simp: and_then_def split: option.splits prod.splits)
  next
    case False
    then show ?thesis
      by (cases "issue env (CopyFrom csv full cn []) w1")
         (auto simp: and_then_def split: option.splits prod.splits)
  qed
  assume "to_csv env df cs index = Inr csv"
  then show ?thesis
    unfolding upload_via_conn_def by (simp only: body sum.case)
qed

subsection \<open>A copy that fails\<close>

lemma played_fail_last:
  "played env xs w = (None, w1) \<Longrightarrow> issue env c w1 = (Some e, w2) \<Longrightarrow>
     played env (xs @ c # ys) w = (Some e, w2)"
  by (simp add: played_append)

lemma issue_result:
  "fst (respond env c (store w)) = r \<Longrightarrow> \<exists>w'. issue env c w = (r, w')"
  by (cases "issue env c w") (simp add: issue_fst [symmetric])

text \<open>
  C1, as the code has it. When a run on an Engine or a Connection reaches the copy and
  \<open>copy_from\<close> raises \<open>e\<close> (the releases of the \<open>with\<close> blocks not raising themselves),
  \<open>fast_to_sql\<close> raises \<open>e\<close> itself, the exception of the driver as it is and not an
  exception that wraps it. The calls made are the ones up to the copy, the copy, and
  the releases of the cursor and of the engine's connection: no commit is made, and
  the module asks for no rollback. The drop, the create and the delete that come before
  the copy have been executed by then.
\<close>

theorem copy_failure_propagates_unwrapped:
  assumes k: "kind env = Engine \<or> kind env = Connection"
    and sch: "get_schema env df name = Inr sch"
    and csv: "to_csv env df (chosen_cols df index cols) index = Inr csv"
    and pre: "played env
                ((if if_exists = ''replace''
                  then [Execute (''DROP TABLE IF EXISTS '' @ full_table_name name schema @ '';'')]
                  else [])
                 @ [Execute (create_query sch name (full_table_name name schema) temp)]
                 @ (if kind env = Engine then [Connect] else [])
                 @ [Cursor]
                 @ (if if_exists = ''replace''
                    then [CurExecute (''DELETE FROM '' @ full_table_name name schema @ '';'')]
                    else [])) w = (None, w1)"
    and cp: "fst (respond env
                   (CopyFrom csv (full_table_name name schema)
                      (map (\<lambda>x. quoted (py_str x)) (chosen_cols df index cols)) [])
                   (store w1)) = Some e"
    and rel: "\<And>s. fst (respond env CursorClose s) = None"
             "\<And>s. fst (respond env ConnClose s) = None"
  shows "fst (fast_to_sql env df name index if_exists cols schema temp w) = Some e
       \<and> calls (snd (fast_to_sql env df name index if_exists cols schema temp w))
           = calls w1
             @ [CopyFrom csv (full_table_name name schema)
                  (map (\<lambda>x. quoted (py_str x)) (chosen_cols df index cols)) [],
                CursorClose]
             @ (if kind env = Engine then [ConnClose] else [])
       \<and> Commit \<notin> set (drop (length (calls w))
                          (calls (snd (fast_to_sql env df name index if_exists cols schema temp w))))
       \<and> Rollback \<notin> set (drop (length (calls w))
                          (calls (snd (fast_to_sql env df name index if_exists cols schema temp w))))"
proof -
  let ?full = "full_table_name name schema"
  let ?cs = "chosen_cols df index cols"
  let ?cn = "map (\<lambda>x. quoted (py_str x)) ?cs"
  let ?run = "fast_to_sql env df name index if_exists cols schema temp w"
  let ?A = "(if if_exists = ''replace''
             then [Execute (''DROP TABLE IF EXISTS '' @ ?full @ '';'')] else [])
            @ [Execute (create_query sch name ?full temp)]"
  let ?C = "if kind env = Engine then [Connect] else []"
  let ?D = "if if_exists = ''replace'' then [CurExecute (''DELETE FROM '' @ ?full @ '';'')] else []"
  let ?copy = "CopyFrom csv ?full ?cn []"
  have "played env (?A @ (?C @ [Cursor] @ ?D)) w = (None, w1)" using pre by simp
  from played_append_None [OF this] obtain wa
    where pa: "played env ?A w = (None, wa)"
      and p1: "played env (?C @ ([Cursor] @ ?D)) wa = (None, w1)" by auto
  from played_append_None [OF p1] obtain wc
    where pc: "played env ?C wa = (None, wc)"
      and p2: "played env ([Cursor] @ ?D) wc = (None, w1)" by blast
  from played_append_None [OF p2] obtain wk
    where pk: "played env [Cursor] wc = (None, wk)"
      and pd: "played env ?D wk = (None, w1)" by blast
  have ik: "issue env Cursor wc = (None, wk)" using pk by (simp only: played_single)
  obtain w2 where i2: "issue env ?copy w1 = (Some e, w2)"
    using issue_result [OF cp] by blast
  have c2: "calls w2 = calls w1 @ [?copy]" using issue_calls [of env ?copy w1] i2 by simp
  have body: "played env (?D @ [?copy, Commit]) wk = (Some e, w2)"
    using played_fail_last [OF pd i2] by simp
  obtain w3 where i3: "issue env CursorClose w2 = (None, w3)"
    using issue_result [OF rel(1)] by blast
  have c3: "calls w3 = calls w1 @ [?copy, CursorClose]"
    using issue_calls [of env CursorClose w2] i3 c2 by simp
  have up: "upload_via_conn env df ?cs index if_exists ?full ?cn wc = (Some e, w3)"
  proof -
    have "upload_via_conn env df ?cs index if_exists ?full ?cn wc
            = with_exit (played env (?D @ [?copy, Commit]) wk) (issue env CursorClose)"
      by (simp only: upload_via_conn_played [OF csv] ik prod.case option.case)
    also have "\<dots> = (Some e, w3)"
      by (simp only: body) (simp add: with_exit_def i3)
    finally show ?thesis .
  qed
  have ddl: "create_table_step env df name if_exists schema temp w = (None, wa)"
    using create_table_step_played [OF sch] pa by simp
  have run_def: "?run = and_then (create_table_step env df name if_exists schema temp w)
           (\<lambda>w2. case kind env of
                Engine \<Rightarrow>
                  (case issue env Connect w2 of
                     (Some e, w3) \<Rightarrow> (Some e, w3)
                   | (None, w3) \<Rightarrow>
                       with_exit (upload_via_conn env df ?cs index if_exists ?full ?cn w3)
                         (issue env ConnClose))
              | Connection \<Rightarrow> upload_via_conn env df ?cs index if_exists ?full ?cn w2
              | Other t \<Rightarrow>
                  (Some (ValueError [''Don't know how to handle conn with type:'', t]), w2))"
    by (simp add: fast_to_sql_def Let_def)
  have new: "fst ?run = Some e
       \<and> calls (snd ?run)
           = calls w1 @ [?copy, CursorClose] @ (if kind env = Engine then [ConnClose] else [])"
  proof (cases "kind env")
    case Engine
    with pc have "played env [Connect] wa = (None, wc)" by simp
    then have "issue env Connect wa = (None, wc)" by (simp only: played_single)
    moreover obtain w4 where i4: "issue env ConnClose w3 = (None, w4)"
      using issue_result [OF rel(2)] by blast
    moreover have "calls w4 = calls w3 @ [ConnClose]"
      using issue_calls [of env ConnClose w3] i4 by simp
    ultimately show ?thesis
      using Engine run_def ddl up c3 by (simp add: with_exit_def)
  next
    case Connection
    with pc have "wc = wa" by simp
    with Connection run_def ddl up c3 show ?thesis by simp
  next
    case (Other t)
    with k show ?thesis by simp
  qed
  have all: "calls w1 = calls w @ ?A @ ?C @ [Cursor] @ ?D"
    using played_calls [OF pre] by simp
  have "drop (length (calls w)) (calls (snd ?run))
          = ?A @ ?C @ [Cursor] @ ?D @ [?copy, CursorClose]
            @ (if kind env = Engine then [ConnClose] else [])"
    using new all by simp
  then have "Commit \<notin> set (drop (length (calls w)) (calls (snd ?run)))"
    and "Rollback \<notin> set (drop (length (calls w)) (calls (snd ?run)))"
    by simp_all
  with new show ?thesis by simp
qed

text \<open>
  The frame with a tab in a county name, loaded with replace through a Connection: the
  copy fails on the line with three fields, and the DataError is what the caller gets.
\<close>

theorem copy_failure_propagates_unwrapped_witness:
  "fst (fast_to_sql (pg_env Connection) tabbed ''beds_test'' False ''replace'' None None False
          stale) = Some BadCopyData
   \<and> calls (snd (fast_to_sql (pg_env Connection) tabbed ''beds_test'' False ''replace'' None None
                   False stale))
       = [Execute ''DROP TABLE IF EXISTS beds_test;'',
          Execute (create_query (''\<newline>CREATE TABLE beds_test (\<newline>'' @ [CHR 0x09]
                     @ ''county TEXT, \<newline>'' @ [CHR 0x09] @ ''value FLOAT(53)\<newline>)\<newline>\<newline>'')
                     ''beds_test'' ''beds_test'' False),
          Cursor,
          CurExecute ''DELETE FROM beds_test;'',
          CopyFrom (''Dade'' @ [CHR 0x09] @ ''120.5\<newline>\"Palm'' @ [CHR 0x09] @ ''Beach\"''
                     @ [CHR 0x09] @ ''3.0\<newline>'')
            ''beds_test'' [''\"county\"'', ''\"value\"''] [],
          CursorClose]"
proof -
  let ?env = "pg_env Connection"
  let ?sch = "''\<newline>CREATE TABLE beds_test (\<newline>'' @ [CHR 0x09]
                     @ ''county TEXT, \<newline>'' @ [CHR 0x09] @ ''value FLOAT(53)\<newline>)\<newline>\<newline>''"
  let ?csv = "''Dade'' @ [CHR 0x09] @ ''120.5\<newline>\"Palm'' @ [CHR 0x09] @ ''Beach\"''
                     @ [CHR 0x09] @ ''3.0\<newline>''"
  let ?pre = "(if ''replace'' = ''replace''
                  then [Execute (''DROP TABLE IF EXISTS '' @ full_table_name ''beds_test'' None @ '';'')]
                  else [])
                 @ [Execute (create_query ?sch ''beds_test'' (full_table_name ''beds_test'' None) False)]
                 @ (if kind ?env = Engine then [Connect] else [])
                 @ [Cursor]
                 @ (if ''replace'' = ''replace''
                    then [CurExecute (''DELETE FROM '' @ full_table_name ''beds_test'' None @ '';'')]
                    else [])"
  have k: "kind ?env = Engine \<or> kind ?env = Connection" by (simp add: pg_env_def)
  have sch: "get_schema ?env tabbed ''beds_test'' = Inr ?sch" by code_simp
  have csv: "to_csv ?env tabbed (chosen_cols tabbed False None) False = Inr ?csv" by code_simp
  have "fst (played ?env ?pre stale) = None" by code_simp
  then have pre: "played ?env ?pre stale = (None, snd (played ?env ?pre stale))"
    by (simp add: prod_eq_iff)
  have cp: "fst (respond ?env
                   (CopyFrom ?csv (full_table_name ''beds_test'' None)
                      (map (\<lambda>x. quoted (py_str x)) (chosen_cols tabbed False None)) [])
                   (store (snd (played ?env ?pre stale)))) = Some BadCopyData"
    by code_simp
  have rel: "\<And>s. fst (respond ?env CursorClose s) = None"
            "\<And>s. fst (respond ?env ConnClose s) = None"
    by (simp_all add: pg_env_def)
  have c1: "calls (snd (played ?env ?pre stale))
             = [Execute ''DROP TABLE IF EXISTS beds_test;'',
                Execute (create_query ?sch ''beds_test'' ''beds_test'' False),
                Cursor, CurExecute ''DELETE FROM beds_test;'']"
    by code_simp
  have cn: "map (\<lambda>x. quoted (py_str x)) (chosen_cols tabbed False None)
              = [''\"county\"'', ''\"value\"'']"
    by code_simp
  have fn: "full_table_name ''beds_test'' None = ''beds_test''" by code_simp
  show ?thesis
    using copy_failure_propagates_unwrapped [OF k sch csv pre cp rel] c1 cn fn
    by (simp add: pg_env_def)
qed

text \<open>
  C1 as stated does not hold. Through an Engine, the same load over a table that held a
  row: the exception that reaches the caller is the driver's DataError, not a
  LoadError; no rollback is among the calls; and the session no longer has the row the
  table held before the call, since the table was dropped and made again before the
  copy.
\<close>

theorem copy_failure_counterexample:
  "tables (store stale) ''beds_test'' = Some [[Some ''Polk'', Some ''7.0'']]
   \<and> fst (fast_to_sql (pg_env Engine) tabbed ''beds_test'' False ''replace'' None None False
           stale)
       = Some (Exc ''DataError'' [''extra or missing data for the columns of the copy''])
   \<and> map_option exc_class
        (fst (fast_to_sql (pg_env Engine) tabbed ''beds_test'' False ''replace'' None None False
                stale)) \<noteq> Some ''LoadError''
   \<and> Rollback \<notin> set (calls (snd (fast_to_sql (pg_env Engine) tabbed ''beds_test'' False
                                     ''replace'' None None False stale)))
   \<and> tables (store (snd (fast_to_sql (pg_env Engine) tabbed ''beds_test'' False ''replace''
                          None None False stale))) ''beds_test'' = Some []"
  by code_simp

subsection \<open>Leaving a TempTable block\<close>

text \<open>
  C3, as the code has it. For a \<open>with TempTable(...)\<close> block whose \<open>__enter__\<close> completed,
  \<open>__exit__\<close> runs after the body whether the body completed or raised (\<open>rb\<close> is the
  body's result): it issues \<open>TRUNCATE TABLE\<close> on the table name, whose failure is
  swallowed, and then, when \<open>destroy\<close> is set, \<open>DROP TABLE IF EXISTS\<close>. Without \<open>destroy\<close>
  the body's exception reaches the caller unchanged; with \<open>destroy\<close> it does so when the
  drop completes, and when the drop raises, the drop's exception is raised in its place.
  The table is left as the two statements leave it.
\<close>

theorem temp_table_release:
  assumes enter: "TempTable_enter env tt w = (None, w1)"
    and body: "body w1 = (rb, w2)"
  shows "calls (snd (with_TempTable env tt body w))
           = calls w2
             @ [Execute (''TRUNCATE TABLE '' @ tt_table_name tt @ '';'')]
             @ (if tt_destroy tt
                then [Execute (''DROP TABLE IF EXISTS '' @ tt_table_name tt @ '';'')] else [])
       \<and> store (snd (with_TempTable env tt body w))
           = (if tt_destroy tt
              then snd (respond env (Execute (''DROP TABLE IF EXISTS '' @ tt_table_name tt @ '';''))
                     (snd (respond env (Execute (''TRUNCATE TABLE '' @ tt_table_name tt @ '';''))
                        (store w2))))
              else snd (respond env (Execute (''TRUNCATE TABLE '' @ tt_table_name tt @ '';''))
                     (store w2)))
       \<and> fst (with_TempTable env tt body w)
           = (if tt_destroy tt
              then (case fst (respond env
                               (Execute (''DROP TABLE IF EXISTS '' @ tt_table_name tt @ '';''))
                               (snd (respond env
                                  (Execute (''TRUNCATE TABLE '' @ tt_table_name tt @ '';''))
                                  (store w2)))) of
                      Some e \<Rightarrow> Some e
                    | None \<Rightarrow> rb)
              else rb)"
proof -
  let ?tr = "Execute (''TRUNCATE TABLE '' @ tt_table_name tt @ '';'')"
  let ?dr = "Execute (''DROP TABLE IF EXISTS '' @ tt_table_name tt @ '';'')"
  obtain rt wt where t: "issue env ?tr w2 = (rt, wt)" by (cases "issue env ?tr w2")
  have wt_store: "store wt = snd (respond env ?tr (store w2))"
    using issue_store [of env ?tr w2] t by simp
  have wt_calls: "calls wt = calls w2 @ [?tr]"
    using issue_calls [of env ?tr w2] t by simp
  have tet: "try_empty_table env tt w2 = (None, wt)"
    using t by (simp add: try_empty_table_def split: option.splits)
  have w: "with_TempTable env tt body w = with_exit (rb, w2) (TempTable_exit env tt)"
    using enter body by (simp add: with_TempTable_def)
  show ?thesis
  proof (cases "tt_destroy tt")
    case False
    then have "TempTable_exit env tt w2 = (None, wt)"
      using tet by (simp add: TempTable_exit_def)
    then have "with_TempTable env tt body w = (rb, wt)"
      using w by (simp add: with_exit_def)
    with False wt_store wt_calls show ?thesis by simp
  next
    case True
    obtain rd wd where d: "issue env ?dr wt = (rd, wd)" by (cases "issue env ?dr wt")
    have rd: "rd = fst (respond env ?dr (store wt))"
      using issue_fst [of env ?dr wt] d by simp
    have wd_store: "store wd = snd (respond env ?dr (store wt))"
      using issue_store [of env ?dr wt] d by simp
    have wd_calls: "calls wd = calls wt @ [?dr]"
      using issue_calls [of env ?dr wt] d by simp
    have "TempTable_exit env tt w2 = (rd, wd)"
      using tet True d by (simp add: TempTable_exit_def)
    then have "with_TempTable env tt body w = ((case rd of Some e \<Rightarrow> Some e | None \<Rightarrow> rb), wd)"
      using w by (simp add: with_exit_def split: option.splits)
    with True rd wd_store wd_calls wt_store wt_calls show ?thesis by simp
  qed
qed

text \<open>
  A body that raises after a load into a new table, with \<open>destroy\<close>: the body's exception
  reaches the caller and the table is gone.
\<close>

theorem temp_table_release_witness:
  "fst (with_TempTable (pg_env Connection) (beds_session True) failing_body fresh)
     = Some (Exc ''RuntimeError'' [''body failed''])
   \<and> tables (store (snd (with_TempTable (pg_env Connection) (beds_session True) failing_body
                          fresh))) ''beds_test'' = None
   \<and> tables (store (snd (TempTable_enter (pg_env Connection) (beds_session True) fresh)))
        ''beds_test'' = Some [[Some ''Dade'', Some ''120.5''], [Some ''Leon'', None]]"
proof -
  let ?env = "pg_env Connection"
  let ?w1 = "snd (TempTable_enter ?env (beds_session True) fresh)"
  have "fst (TempTable_enter ?env (beds_session True) fresh) = None" by code_simp
  then have enter: "TempTable_enter ?env (beds_session True) fresh = (None, ?w1)"
    by (simp add: prod_eq_iff)
  have body: "failing_body ?w1 = (Some (Exc ''RuntimeError'' [''body failed'']), ?w1)"
    by (simp add: failing_body_def)
  have d: "tt_destroy (beds_session True)" by (simp add: beds_session_def)
  have drop_ok: "fst (respond ?env
                    (Execute (''DROP TABLE IF EXISTS '' @ tt_table_name (beds_session True) @ '';''))
                    (snd (respond ?env
                       (Execute (''TRUNCATE TABLE '' @ tt_table_name (beds_session True) @ '';''))
                       (store ?w1)))) = None"
    by code_simp
  have gone: "tables (snd (respond ?env
                    (Execute (''DROP TABLE IF EXISTS '' @ tt_table_name (beds_session True) @ '';''))
                    (snd (respond ?env
                       (Execute (''TRUNCATE TABLE '' @ tt_table_name (beds_session True) @ '';''))
                       (store ?w1))))) ''beds_test'' = None"
    by code_simp
  have loaded: "tables (store ?w1) ''beds_test''
                  = Some [[Some ''Dade'', Some ''120.5''], [Some ''Leon'', None]]"
    by code_simp
  show ?thesis
    using temp_table_release [where body = failing_body, OF enter body] d drop_ok gone loaded
    by simp
qed

text \<open>
  C3 as stated does not hold. A body that raises because the connection was lost: the
  truncate of \<open>__exit__\<close> fails and is swallowed, so without \<open>destroy\<close> the table still
  holds the rows of the session; with \<open>destroy\<close> the drop raises the driver's
  OperationalError, which reaches the caller in place of the body's exception, and the
  table is still there.
\<close>

theorem temp_table_release_counterexample:
  "fst (with_TempTable (pg_env Connection) (beds_session False) lost_connection_body fresh)
     = Some (Exc ''InterfaceError'' [''connection already closed''])
   \<and> tables (store (snd (with_TempTable (pg_env Connection) (beds_session False)
                          lost_connection_body fresh))) ''beds_test''
       = Some [[Some ''Dade'', Some ''120.5''], [Some ''Leon'', None]]
   \<and> fst (with_TempTable (pg_env Connection) (beds_session True) lost_connection_body fresh)
       = Some OperationalError
   \<and> OperationalError \<noteq> Exc ''InterfaceError'' [''connection already closed'']
   \<and> tables (store (snd (with_TempTable (pg_env Connection) (beds_session True)
                          lost_connection_body fresh))) ''beds_test''
       = Some [[Some ''Dade'', Some ''120.5''], [Some ''Leon'', None]]"
  by code_simp

subsection \<open>The create statement\<close>

lemma replace_scan_keeps:
  "old \<noteq> [] \<Longrightarrow> hd old \<notin> set pre \<Longrightarrow>
     replace_scan old new (pre @ rest) = pre @ replace_scan old new rest"
proof (induction pre)
  case Nil
  show ?case by simp
next
  case (Cons c pre)
  from Cons.prems have "\<not> prefix old (c # pre @ rest)"
    by (cases old) auto
  with Cons show ?case by simp
qed

lemma replace_scan_hit:
  "old \<noteq> [] \<Longrightarrow> replace_scan old new (old @ rest) = new @ replace_scan old new rest"
  by (cases old) simp_all

lemma create_query_form:
  "\<exists>tail. create_query (''\<newline>CREATE TABLE '' @ rest) name full temp
            = (if temp then ''\<newline>CREATE TEMP TABLE '' else ''\<newline>CREATE TABLE IF NOT EXISTS '')
              @ tail"
proof -
  let ?W = "if temp then ''CREATE TEMP TABLE'' else ''CREATE TABLE IF NOT EXISTS''"
  have "replace_scan ''CREATE TABLE'' ?W (''\<newline>'' @ ''CREATE TABLE'' @ ('' '' @ rest))
          = ''\<newline>'' @ replace_scan ''CREATE TABLE'' ?W (''CREATE TABLE'' @ ('' '' @ rest))"
    by (rule replace_scan_keeps) simp_all
  also have "replace_scan ''CREATE TABLE'' ?W (''CREATE TABLE'' @ ('' '' @ rest))
          = ?W @ replace_scan ''CREATE TABLE'' ?W ('' '' @ rest)"
    by (rule replace_scan_hit) simp
  also have "replace_scan ''CREATE TABLE'' ?W ('' '' @ rest)
          = '' '' @ replace_scan ''CREATE TABLE'' ?W rest"
    by (rule replace_scan_keeps) simp_all
  finally have inner: "py_replace ''CREATE TABLE'' ?W (''\<newline>CREATE TABLE '' @ rest)
          = (''\<newline>'' @ ?W @ '' '') @ replace_scan ''CREATE TABLE'' ?W rest"
    by (simp add: py_replace_def)
  have "replace_scan (quoted name) full
           ((''\<newline>'' @ ?W @ '' '') @ replace_scan ''CREATE TABLE'' ?W rest)
          = (''\<newline>'' @ ?W @ '' '') @ replace_scan (quoted name) full
              (replace_scan ''CREATE TABLE'' ?W rest)"
    by (rule replace_scan_keeps) (simp_all add: quoted_def)
  then have "create_query (''\<newline>CREATE TABLE '' @ rest) name full temp
          = (''\<newline>'' @ ?W @ '' '') @ replace_scan (quoted name) full
              (replace_scan ''CREATE TABLE'' ?W rest)"
    unfolding create_query_def inner by (simp add: py_replace_def quoted_def)
  then show ?thesis by (cases temp) auto
qed

text \<open>
  C4, as the code has it. When the schema text of pandas starts with \<open>CREATE TABLE\<close>
  after its newline, the create statement starts with \<open>CREATE TABLE IF NOT EXISTS\<close> for
  \<open>temp\<close> false and with \<open>CREATE TEMP TABLE\<close> (which has no such guard) for \<open>temp\<close>
  true. With \<open>temp\<close> false, in a database that takes a create-if-absent and a
  drop-if-exists statement whether the table is there or not, the create step of a
  second call, made in the state the first call left, does not fail.
\<close>

theorem create_if_absent_twice:
  assumes sch: "get_schema env df name = Inr (''\<newline>CREATE TABLE '' @ rest)"
    and create_guard: "\<And>q s. prefix ''\<newline>CREATE TABLE IF NOT EXISTS '' q
                         \<Longrightarrow> fst (respond env (Execute q) s) = None"
    and drop_guard: "\<And>t s. fst (respond env (Execute (''DROP TABLE IF EXISTS '' @ t @ '';'')) s)
                           = None"
  shows "(\<exists>tail. create_query (''\<newline>CREATE TABLE '' @ rest) name (full_table_name name schema) temp
                   = (if temp then ''\<newline>CREATE TEMP TABLE ''
                      else ''\<newline>CREATE TABLE IF NOT EXISTS '') @ tail)
       \<and> fst (create_table_step env df name if_exists schema False
                (snd (fast_to_sql env df name index if_exists cols schema False w))) = None"
proof -
  let ?full = "full_table_name name schema"
  let ?w1 = "snd (fast_to_sql env df name index if_exists cols schema False w)"
  let ?drop = "Execute (''DROP TABLE IF EXISTS '' @ ?full @ '';'')"
  let ?create = "Execute (create_query (''\<newline>CREATE TABLE '' @ rest) name ?full False)"
  from create_query_form [of rest name ?full False]
  have "prefix ''\<newline>CREATE TABLE IF NOT EXISTS ''
          (create_query (''\<newline>CREATE TABLE '' @ rest) name ?full False)"
    by (auto simp del: append.simps)
  from create_guard [OF this]
  have c: "\<And>w'. fst (issue env ?create w') = None" by (simp add: issue_fst)
  from drop_guard [of ?full]
  have d: "\<And>w'. fst (issue env ?drop w') = None" by (simp add: issue_fst)
  have "fst (create_table_step env df name if_exists schema False ?w1) = None"
    using sch c d
    by (simp add: create_table_step_def Let_def and_then_fst_None)
  with create_query_form [of rest name ?full temp] show ?thesis by blast
qed

text \<open>
  Two loads of the example frame with append: the first makes the table, and the create
  step of the second completes on the table that is there.
\<close>

theorem create_if_absent_twice_witness:
  "fst (fast_to_sql (steady_env Connection) beds ''beds_test'' False ''append'' None None False
          fresh) = None
   \<and> fst (create_table_step (steady_env Connection) beds ''beds_test'' ''append'' None False
           (snd (fast_to_sql (steady_env Connection) beds ''beds_test'' False ''append'' None
                   None False fresh))) = None"
proof -
  let ?env = "steady_env Connection"
  have sch: "get_schema ?env beds ''beds_test''
               = Inr (''\<newline>CREATE TABLE '' @ (''beds_test (\<newline>'' @ [CHR 0x09]
                     @ ''county TEXT, \<newline>'' @ [CHR 0x09] @ ''value FLOAT(53)\<newline>)\<newline>\<newline>''))"
    by code_simp
  have create_guard: "fst (respond ?env (Execute q) s) = None"
    if "prefix ''\<newline>CREATE TABLE IF NOT EXISTS '' q" for q s
  proof -
    from that obtain t where q: "q = ''\<newline>CREATE TABLE IF NOT EXISTS '' @ t"
      by (auto elim: prefixE)
    show ?thesis
      unfolding q
      by (simp add: steady_env_def pg_sql_def stmt_arg_def create_arg_def blank_char_def)
  qed
  have drop_guard: "\<And>t s. fst (respond ?env (Execute (''DROP TABLE IF EXISTS '' @ t @ '';'')) s)
                           = None"
    by (simp add: steady_env_def pg_sql_def stmt_arg_def)
  have first: "fst (fast_to_sql ?env beds ''beds_test'' False ''append'' None None False fresh)
                 = None"
    by code_simp
  show ?thesis
    using create_if_absent_twice
            [OF sch create_guard drop_guard,
             where if_exists = "''append''" and schema = None and index = False and cols = None
               and w = fresh and temp = False]
      first
    by simp
qed

text \<open>
  C4 as stated does not hold for \<open>temp\<close>. On one Connection, starting from a session
  without the table, the first load with \<open>temp=True\<close> completes and the second fails at
  its create step: the relation already exists.
\<close>

theorem create_temp_twice_counterexample:
  "fst (fast_to_sql (pg_env Connection) beds ''beds_test'' False ''append'' None None True fresh)
     = None
   \<and> fst (create_table_step (pg_env Connection) beds ''beds_test'' ''append'' None True
           (snd (fast_to_sql (pg_env Connection) beds ''beds_test'' False ''append'' None None
                   True fresh)))
       = Some (DuplicateTable ''beds_test'')
   \<and> fst (fast_to_sql (pg_env Connection) beds ''beds_test'' False ''append'' None None True
           (snd (fast_to_sql (pg_env Connection) beds ''beds_test'' False ''append'' None None
                   True fresh)))
       = Some (DuplicateTable ''beds_test'')"
  by code_simp

subsection \<open>Column types that the mapping does not have\<close>

text \<open>
  C7, as the code has it. \<open>fast_to_sql\<close> does not look at \<open>_dtype_map\<close>: the column
  types come from \<open>get_schema\<close> of pandas. When \<open>get_schema\<close> raises \<open>e\<close> for the frame,
  \<open>e\<close> is what \<open>fast_to_sql\<close> raises: before any call on the handle when \<open>if_exists\<close> is
  not \<open>replace\<close>, and under \<open>replace\<close> after \<open>DROP TABLE IF EXISTS\<close> has been executed
  (when the drop itself raises, its exception is raised).
\<close>

theorem schema_error_passes_through:
  assumes "get_schema env df name = Inl e"
  shows "fast_to_sql env df name index if_exists cols schema temp w
           = (if if_exists = ''replace''
              then (case issue env
                           (Execute (''DROP TABLE IF EXISTS '' @ full_table_name name schema @ '';''))
                           w of
                      (Some e', w') \<Rightarrow> (Some e', w')
                    | (None, w') \<Rightarrow> (Some e, w'))
              else (Some e, w))"
proof (cases "if_exists = ''replace''")
  case True
  obtain r w' where i: "issue env
            (Execute (''DROP TABLE IF EXISTS '' @ full_table_name name schema @ '';'')) w = (r, w')"
    by (cases "issue env
            (Execute (''DROP TABLE IF EXISTS '' @ full_table_name name schema @ '';'')) w")
  show ?thesis
    using assms True i
    by (cases r) (simp_all add: fast_to_sql_def create_table_step_def Let_def)
next
  case False
  with assms show ?thesis
    by (simp add: fast_to_sql_def create_table_step_def Let_def)
qed

text \<open>
  The frame of complex numbers loaded with replace over a table that held a row: the
  ValueError of pandas reaches the caller after the table has been dropped.
\<close>

theorem schema_error_passes_through_witness:
  "fst (fast_to_sql complex_env waves ''beds_test'' False ''replace'' None None False stale)
     = Some (ValueError [''Complex datatypes not supported''])
   \<and> calls (snd (fast_to_sql complex_env waves ''beds_test'' False ''replace'' None None False
                   stale))
       = [Execute ''DROP TABLE IF EXISTS beds_test;'']
   \<and> tables (store (snd (fast_to_sql complex_env waves ''beds_test'' False ''replace'' None
                          None False stale))) ''beds_test'' = None
   \<and> fast_to_sql complex_env waves ''beds_test'' False ''append'' None None False stale
       = (Some (ValueError [''Complex datatypes not supported'']), stale)"
proof -
  have g: "get_schema complex_env waves ''beds_test''
             = Inl (ValueError [''Complex datatypes not supported''])"
    by (simp add: complex_env_def)
  let ?drop = "Execute (''DROP TABLE IF EXISTS '' @ full_table_name ''beds_test'' None @ '';'')"
  obtain w' where w': "w' = snd (issue complex_env ?drop stale)" by simp
  have "fst (issue complex_env ?drop stale) = None" by code_simp
  then have d: "issue complex_env ?drop stale = (None, w')"
    by (simp add: w' prod_eq_iff)
  have c: "calls w' = [Execute ''DROP TABLE IF EXISTS beds_test;'']"
    unfolding w' by code_simp
  have t: "tables (store w') ''beds_test'' = None"
    unfolding w' by code_simp
  have a: "''append'' \<noteq> ''replace''" by simp
  have r: "fast_to_sql complex_env waves ''beds_test'' False ''replace'' None None False stale
             = (Some (ValueError [''Complex datatypes not supported'']), w')"
    using schema_error_passes_through [OF g, of False "''replace''" None None False stale]
    by (simp only: d prod.case option.case) simp
  have p: "fast_to_sql complex_env waves ''beds_test'' False ''append'' None None False stale
             = (Some (ValueError [''Complex datatypes not supported'']), stale)"
    using schema_error_passes_through [OF g, of False "''append''" None None False stale]
    by simp
  show ?thesis
    by (simp only: r p c t fst_conv snd_conv simp_thms)
qed

text \<open>
  C7 as stated does not hold. The frame with the column of booleans, whose dtype the
  mapping does not have (\<open>draft_sql_ddl_statement\<close> raises for it), is loaded: no
  exception is raised, the statements are executed and the row is in the table.
\<close>

theorem unmapped_dtype_loads_counterexample:
  "dtype_map Bool = None
   \<and> draft_sql_ddl_statement flags (Some ''flags_test'')
       = Inl (ValueError ['' Don't know how to handle dtype bool for column open. Add it!''])
   \<and> fst (fast_to_sql (pg_env Connection) flags ''flags_test'' False ''append'' None None False
           fresh) = None
   \<and> calls (snd (fast_to_sql (pg_env Connection) flags ''flags_test'' False ''append'' None None
                   False fresh))
       = [Execute (''\<newline>CREATE TABLE IF NOT EXISTS flags_test (\<newline>'' @ [CHR 0x09]
                   @ ''county TEXT, \<newline>'' @ [CHR 0x09] @ ''open BOOLEAN\<newline>)\<newline>\<newline>''),
          Cursor,
          CopyFrom (''Dade'' @ [CHR 0x09] @ ''True\<newline>'') ''flags_test''
            [''\"county\"'', ''\"open\"''] [],
          Commit, CursorClose]
   \<and> tables (store (snd (fast_to_sql (pg_env Connection) flags ''flags_test'' False ''append''
                          None None False fresh))) ''flags_test''
       = Some [[Some ''Dade'', Some ''True'']]"
  by code_simp

subsection \<open>The calls a run can make\<close>

lemma extends_refl: "extends w S (r, w)"
  by (simp add: extends_def)

lemma extends_issue: "c \<in> S \<Longrightarrow> extends w S (issue env c w)"
  by (simp add: extends_def issue_calls)

lemma extends_trans:
  "extends w S (r1, w1) \<Longrightarrow> extends w1 S r2 \<Longrightarrow> extends w S r2"
  by (auto simp: extends_def)

lemma extends_and_then:
  assumes "extends w S r" and "\<And>w1. extends w1 S (f w1)"
  shows "extends w S (and_then r f)"
proof (cases r)
  case (Pair res w1)
  show ?thesis
  proof (cases res)
    case None
    with Pair assms(1) assms(2) [of w1] show ?thesis
      by (auto intro: extends_trans)
  next
    case (Some e)
    with Pair assms(1) show ?thesis by simp
  qed
qed

lemma extends_with_exit:
  assumes "extends w S r" and "\<And>w1. extends w1 S (f w1)"
  shows "extends w S (with_exit r f)"
proof (cases r)
  case (Pair res w1)
  obtain rx wx where f: "f w1 = (rx, wx)" by (cases "f w1")
  from assms(2) [of w1] f have "extends w1 S (rx, wx)" by simp
  with assms(1) Pair have "extends w S (rx, wx)" by (auto intro: extends_trans)
  then have "extends w S (res, wx)" by (simp add: extends_def)
  with \<open>extends w S (rx, wx)\<close> Pair f show ?thesis
    by (cases rx) (simp_all add: with_exit_def)
qed

lemma extends_played: "set cs \<subseteq> S \<Longrightarrow> extends w S (played env cs w)"
proof (induction cs arbitrary: w)
  case Nil
  show ?case by (simp add: extends_refl)
next
  case (Cons c cs)
  then show ?case
    by (auto intro!: extends_and_then extends_issue)
qed

lemma extends_upload:
  assumes "Cursor \<in> S" "CursorClose \<in> S" "Commit \<in> S"
    and "CurExecute (''DELETE FROM '' @ full @ '';'') \<in> S"
    and "\<And>csv. to_csv env df cs index = Inr csv \<Longrightarrow> CopyFrom csv full cn [] \<in> S"
  shows "extends w S (upload_via_conn env df cs index if_exists full cn w)"
proof (cases "to_csv env df cs index")
  case (Inl e)
  then show ?thesis by (simp add: upload_via_conn_def extends_refl)
next
  case (Inr csv)
  have body: "extends w1 S
           (played env
              ((if if_exists = ''replace''
                then [CurExecute (''DELETE FROM '' @ full @ '';'')] else [])
               @ [CopyFrom csv full cn [], Commit]) w1)" for w1
    using assms Inr by (intro extends_played) auto
  obtain r1 w1 where c: "issue env Cursor w = (r1, w1)" by (cases "issue env Cursor w")
  have e1: "extends w S (r1, w1)" using extends_issue [OF assms(1), of w env] c by simp
  show ?thesis
  proof (cases r1)
    case (Some e)
    with c e1 show ?thesis by (simp add: upload_via_conn_played [OF Inr])
  next
    case None
    have "extends w1 S
            (with_exit
               (played env
                  ((if if_exists = ''replace''
                    then [CurExecute (''DELETE FROM '' @ full @ '';'')] else [])
                   @ [CopyFrom csv full cn [], Commit]) w1)
               (issue env CursorClose))"
      using body assms(2) by (intro extends_with_exit extends_issue)
    with e1 None c show ?thesis
      by (simp only: upload_via_conn_played [OF Inr] prod.case option.case)
         (rule extends_trans)
  qed
qed

lemma extends_create_table_step:
  assumes "Execute (''DROP TABLE IF EXISTS '' @ full_table_name name schema @ '';'') \<in> S"
    and "\<And>sch. Execute (create_query sch name (full_table_name name schema) temp) \<in> S"
  shows "extends w S (create_table_step env df name if_exists schema temp w)"
  unfolding create_table_step_def Let_def
  using assms
  by (intro extends_and_then)
     (auto intro: extends_issue extends_refl split: sum.splits)

lemma extends_fast_to_sql:
  assumes "Execute (''DROP TABLE IF EXISTS '' @ full_table_name name schema @ '';'') \<in> S"
    and "\<And>sch. Execute (create_query sch name (full_table_name name schema) temp) \<in> S"
    and "Connect \<in> S" "ConnClose \<in> S"
    and "Cursor \<in> S" "CursorClose \<in> S" "Commit \<in> S"
    and "CurExecute (''DELETE FROM '' @ full_table_name name schema @ '';'') \<in> S"
    and "\<And>csv. to_csv env df (chosen_cols df index cols) index = Inr csv \<Longrightarrow>
           CopyFrom csv (full_table_name name schema)
             (map (\<lambda>x. quoted (py_str x)) (chosen_cols df index cols)) [] \<in> S"
  shows "extends w S (fast_to_sql env df name index if_exists cols schema temp w)"
proof -
  have up: "extends w1 S
              (upload_via_conn env df (chosen_cols df index cols) index if_exists
                 (full_table_name name schema)
                 (map (\<lambda>x. quoted (py_str x)) (chosen_cols df index cols)) w1)" for w1
    using assms(5-9) by (intro extends_upload) auto
  have rest: "extends w2 S
           (case kind env of
                Engine \<Rightarrow>
                  (case issue env Connect w2 of
                     (Some e, w3) \<Rightarrow> (Some e, w3)
                   | (None, w3) \<Rightarrow>
                       with_exit
                         (upload_via_conn env df (chosen_cols df index cols) index if_exists
                            (full_table_name name schema)
                            (map (\<lambda>x. quoted (py_str x)) (chosen_cols df index cols)) w3)
                         (issue env ConnClose))
              | Connection \<Rightarrow>
                  upload_via_conn env df (chosen_cols df index cols) index if_exists
                    (full_table_name name schema)
                    (map (\<lambda>x. quoted (py_str x)) (chosen_cols df index cols)) w2
              | Other t \<Rightarrow>
                  (Some (ValueError [''Don't know how to handle conn with type:'', t]), w2))"
    for w2
  proof (cases "kind env")
    case Engine
    obtain rc wc where c: "issue env Connect w2 = (rc, wc)" by (cases "issue env Connect w2")
    have ec: "extends w2 S (rc, wc)" using extends_issue [OF assms(3), of w2 env] c by simp
    have "extends wc S
            (with_exit
               (upload_via_conn env df (chosen_cols df index cols) index if_exists
                  (full_table_name name schema)
                  (map (\<lambda>x. quoted (py_str x)) (chosen_cols df index cols)) wc)
               (issue env ConnClose))"
      using up assms(4) by (intro extends_with_exit extends_issue)
    with ec have "extends w2 S
            (with_exit
               (upload_via_conn env df (chosen_cols df index cols) index if_exists
                  (full_table_name name schema)
                  (map (\<lambda>x. quoted (py_str x)) (chosen_cols df index cols)) wc)
               (issue env ConnClose))"
      by (rule extends_trans)
    with ec Engine c show ?thesis by (cases rc) simp_all
  next
    case Connection
    with up show ?thesis by simp
  next
    case (Other t)
    then show ?thesis by (simp add: extends_refl)
  qed
  show ?thesis
    unfolding fast_to_sql_def Let_def
    by (intro extends_and_then extends_create_table_step assms(1,2) rest)
qed

subsection \<open>Missing values and empty texts in the copy\<close>




subsection \<open>The loop over the columns\<close>

lemma filter_key_distinct:
  "distinct (map fst ps) \<Longrightarrow> (c, dt) \<in> set ps \<Longrightarrow> filter (\<lambda>(n, d). n = c) ps = [(c, dt)]"
proof (induction ps)
  case Nil
  then show ?case by simp
next
  case (Cons p ps)
  show ?case
  proof (cases "p = (c, dt)")
    case True
    with Cons.prems have "c \<notin> fst ` set ps" by simp
    then have "filter (\<lambda>(n, d). n = c) ps = []"
      by (auto simp: filter_empty_conv image_iff)
    with True show ?thesis by simp
  next
    case False
    with Cons.prems have in_ps: "(c, dt) \<in> set ps" by simp
    with Cons.prems have "fst p \<noteq> c" by (auto simp: image_iff)
    with Cons in_ps show ?thesis by (cases p) simp
  qed
qed

lemma dtypes_getitem_distinct:
  "distinct (list_df df) \<Longrightarrow> (c, dt) \<in> set (columns df) \<Longrightarrow>
     dtypes_getitem df c = Inr (OneDtype dt)"
  by (simp add: dtypes_getitem_def list_df_def filter_key_distinct)

lemma ddl_loop_mapped:
  assumes "\<forall>p\<in>set ps. dtypes_getitem df (fst p) = Inr (OneDtype (snd p))"
    and "\<forall>p\<in>set ps. dtype_map (snd p) \<noteq> None"
  shows "ddl_loop df tn (map fst ps) (a, b)
           = Inr (a @ map column_decl ps, b @ map (column_comment tn) ps)"
  using assms
proof (induction ps arbitrary: a b)
  case Nil
  show ?case by simp
next
  case (Cons p ps)
  from Cons.prems obtain ty where ty: "dtype_map (snd p) = Some ty" by auto
  have "ddl_loop df tn (map fst (p # ps)) (a, b)
          = ddl_loop df tn (map fst ps)
              (a @ [column_decl p], b @ [column_comment tn p])"
    using Cons.prems ty by (simp add: column_decl_def column_comment_def)
  also have "\<dots> = Inr ((a @ [column_decl p]) @ map column_decl ps,
                       (b @ [column_comment tn p]) @ map (column_comment tn) ps)"
    using Cons.prems by (intro Cons.IH) auto
  finally show ?case by simp
qed

lemma ddl_loop_unmapped:
  assumes "\<forall>p\<in>set ps. dtypes_getitem df (fst p) = Inr (OneDtype (snd p))"
    and "\<forall>p\<in>set ps. dtype_map (snd p) \<noteq> None"
    and "dtypes_getitem df c = Inr (OneDtype dt)" and "dtype_map dt = None"
  shows "ddl_loop df tn (map fst ps @ c # cs) (a, b)
           = Inl (ValueError
               ['' Don't know how to handle dtype '' @ dtype_str dt @ '' for column '' @ c
                @ ''. Add it!''])"
  using assms
proof (induction ps arbitrary: a b)
  case Nil
  then show ?case by simp
next
  case (Cons p ps)
  from Cons.prems obtain ty where ty: "dtype_map (snd p) = Some ty" by auto
  have "ddl_loop df tn (map fst (p # ps) @ c # cs) (a, b)
          = ddl_loop df tn (map fst ps @ c # cs)
              (a @ [column_decl p], b @ [column_comment tn p])"
    using Cons.prems ty by (simp add: column_decl_def column_comment_def)
  also have "\<dots> = Inl (ValueError
               ['' Don't know how to handle dtype '' @ dtype_str dt @ '' for column '' @ c
                @ ''. Add it!''])"
    using Cons.prems by (intro Cons.IH) auto
  finally show ?case .
qed

lemma find_split:
  "find P xs = Some x \<Longrightarrow> \<exists>ys zs. xs = ys @ x # zs \<and> P x \<and> (\<forall>y\<in>set ys. \<not> P y)"
proof (induction xs)
  case Nil
  then show ?case by simp
next
  case (Cons a xs)
  show ?case
  proof (cases "P a")
    case True
    with Cons.prems have "a = x" by simp
    with True have "a # xs = [] @ x # xs \<and> P x \<and> (\<forall>y\<in>set []. \<not> P y)" by simp
    then show ?thesis by blast
  next
    case False
    with Cons obtain ys zs where "xs = ys @ x # zs" "P x" "\<forall>y\<in>set ys. \<not> P y" by auto
    with False have "a # xs = (a # ys) @ x # zs \<and> P x \<and> (\<forall>y\<in>set (a # ys). \<not> P y)"
      by simp
    then show ?thesis by blast
  qed
qed

subsection \<open>A column whose dtype the mapping does not have\<close>

text \<open>
  C6, as the code has it. \<open>draft_sql_ddl_statement\<close> takes a frame and a name and gives
  a text or an exception: it has no handle and makes no call. For a frame whose column
  labels are pairwise distinct and that has a column with a dtype that is no key of
  \<open>_dtype_map\<close>, it raises the ValueError whose message names the dtype and the label
  of the first such column.
\<close>

theorem unmapped_dtype_raises:
  assumes "distinct (list_df df)"
    and "\<exists>p\<in>set (columns df). dtype_map (snd p) = None"
  shows "\<exists>c dt. find (\<lambda>p. dtype_map (snd p) = None) (columns df) = Some (c, dt)
           \<and> draft_sql_ddl_statement df table_name
               = Inl (ValueError
                   ['' Don't know how to handle dtype '' @ dtype_str dt @ '' for column '' @ c
                    @ ''. Add it!''])"
proof -
  from assms(2) obtain c dt
    where f: "find (\<lambda>p. dtype_map (snd p) = None) (columns df) = Some (c, dt)"
    by (cases "find (\<lambda>p. dtype_map (snd p) = None) (columns df)")
       (fastforce simp: find_None_iff)+
  from find_split [OF f] obtain ys zs
    where split: "columns df = ys @ (c, dt) # zs" and bad: "dtype_map dt = None"
      and good: "\<forall>y\<in>set ys. dtype_map (snd y) \<noteq> None"
    by auto
  have one: "dtypes_getitem df (fst p) = Inr (OneDtype (snd p))" if "p \<in> set (columns df)" for p
    using dtypes_getitem_distinct [OF assms(1), of "fst p" "snd p"] that by simp
  have l: "list_df df = map fst ys @ c # map fst zs"
    by (simp add: list_df_def split)
  have "ddl_loop df tn (list_df df) ([], [])
          = Inl (ValueError
                   ['' Don't know how to handle dtype '' @ dtype_str dt @ '' for column '' @ c
                    @ ''. Add it!''])" for tn
    unfolding l
    using one good bad split
    by (intro ddl_loop_unmapped) auto
  then have "draft_sql_ddl_statement df table_name
               = Inl (ValueError
                   ['' Don't know how to handle dtype '' @ dtype_str dt @ '' for column '' @ c
                    @ ''. Add it!''])"
    by (simp add: draft_sql_ddl_statement_def)
  with f show ?thesis by blast
qed

text \<open>The frame with the column of booleans: the message names \<open>bool\<close> and \<open>open\<close>.\<close>

theorem unmapped_dtype_raises_witness:
  "distinct (list_df flags)
   \<and> find (\<lambda>p. dtype_map (snd p) = None) (columns flags) = Some (''open'', Bool)
   \<and> draft_sql_ddl_statement flags None
       = Inl (ValueError ['' Don't know how to handle dtype bool for column open. Add it!''])"
proof -
  have d: "distinct (list_df flags)" by code_simp
  have e: "\<exists>p\<in>set (columns flags). dtype_map (snd p) = None"
    by (simp add: flags_def)
  have f: "find (\<lambda>p. dtype_map (snd p) = None) (columns flags) = Some (''open'', Bool)"
    by (simp add: flags_def)
  from unmapped_dtype_raises [OF d e, of None] f d show ?thesis by simp
qed

text \<open>
  C6 as stated does not hold for a frame in which a label repeats. \<open>dict(df.dtypes)\<close>
  holds a Series for the repeated label, the test \<open>dt not in _dtype_map\<close> cannot hash
  it, and the TypeError of that test is raised at the first column, before the column
  of booleans is reached (the text of the message is the one of pandas 2).
\<close>

theorem repeated_label_unmapped_counterexample:
  "(''open'', Bool) \<in> set (columns twins)
   \<and> dtype_map Bool = None
   \<and> draft_sql_ddl_statement twins None
       = Inl (TypeError [''unhashable type: 'Series'' @ [CHR 0x27]])
   \<and> TypeError [''unhashable type: 'Series'' @ [CHR 0x27]]
       \<noteq> ValueError ['' Don't know how to handle dtype bool for column open. Add it!'']"
  by code_simp

subsection \<open>Joining and splitting lines\<close>

lemma join_Cons: "ys \<noteq> [] \<Longrightarrow> join sep (x # ys) = x @ sep @ join sep ys"
  by (cases ys) simp_all

lemma join_append:
  "xs \<noteq> [] \<Longrightarrow> ys \<noteq> [] \<Longrightarrow> join sep (xs @ ys) = join sep xs @ sep @ join sep ys"
proof (induction xs)
  case Nil
  then show ?case by simp
next
  case (Cons x xs)
  show ?case
  proof (cases "xs = []")
    case True
    with Cons.prems show ?thesis by (simp add: join_Cons)
  next
    case False
    with Cons show ?thesis by (simp add: join_Cons)
  qed
qed

lemma split_on_plain: "d \<notin> set l \<Longrightarrow> split_on d l = [l]"
  by (induction l) auto

lemma split_on_line: "d \<notin> set l \<Longrightarrow> split_on d (l @ d # rest) = l # split_on d rest"
  by (induction l) auto

lemma split_on_join:
  "ls \<noteq> [] \<Longrightarrow> \<forall>l\<in>set ls. d \<notin> set l \<Longrightarrow> split_on d (join [d] ls) = ls"
proof (induction ls)
  case Nil
  then show ?case by simp
next
  case (Cons l ls)
  show ?case
  proof (cases "ls = []")
    case True
    with Cons.prems show ?thesis by (simp add: split_on_plain)
  next
    case False
    with Cons show ?thesis by (simp add: join_Cons split_on_line)
  qed
qed

subsection \<open>\<open>textwrap.dedent\<close> on lines with a known margin\<close>

lemma margin_kept:
  "\<forall>x\<in>set xs. prefix m x \<Longrightarrow> fold margin_step xs (Some m) = Some m"
  by (induction xs) (simp_all add: margin_step_def)

lemma textwrap_dedent_lines:
  assumes "ls \<noteq> []" and "\<forall>l\<in>set ls. CHR 0x0A \<notin> set l"
    and "ns = map (\<lambda>l. if l \<noteq> [] \<and> list_all blank_char l then [] else l) ls"
    and "map (takeWhile blank_char) (filter (\<lambda>l. l \<noteq> []) ns) = m # rest"
    and "m \<noteq> []" and "\<forall>x\<in>set rest. prefix m x"
  shows "textwrap_dedent (join ''\<newline>'' ls)
           = join ''\<newline>'' (map (\<lambda>l. if prefix m l then drop (length m) l else l) ns)"
proof -
  have s: "split_on CHR 0x0A (join ''\<newline>'' ls) = ls"
    using split_on_join [OF assms(1,2)] by simp
  have "fold margin_step (m # rest) None = Some m"
    using margin_kept [OF assms(6)] by (simp add: margin_step_def)
  then show ?thesis
    unfolding textwrap_dedent_def s Let_def assms(3) [symmetric] assms(4)
    using assms(5) by simp
qed

lemma solid_indent:
  "list_all blank_char ind \<Longrightarrow> \<not> blank_char c \<Longrightarrow> takeWhile blank_char (ind @ c # r) = ind"
  by (induction ind) simp_all

subsection \<open>The f-string as lines\<close>

lemma with_commas_ne: "ds \<noteq> [] \<Longrightarrow> with_commas ds \<noteq> []"
  by (induction ds rule: with_commas.induct) simp_all

lemma with_commas_heads:
  "x \<in> set (with_commas ds) \<Longrightarrow> \<exists>y\<in>set ds. x = y \<or> x = y @ '',''"
  by (induction ds rule: with_commas.induct) auto

lemma decl_lines:
  "ds \<noteq> [] \<Longrightarrow>
     ''        '' @ join '',\<newline>        '' ds
       = join ''\<newline>'' (map (\<lambda>d. ''        '' @ d) (with_commas ds))"
proof (induction ds rule: with_commas.induct)
  case 1
  then show ?case by simp
next
  case (2 d)
  show ?case by simp
next
  case (3 d e ds)
  then have "''        '' @ join '',\<newline>        '' (e # ds)
       = join ''\<newline>'' (map (\<lambda>d. ''        '' @ d) (with_commas (e # ds)))"
    by simp
  moreover have "map (\<lambda>d. ''        '' @ d) (with_commas (e # ds)) \<noteq> []"
    using with_commas_ne [of "e # ds"] by simp
  ultimately show ?case
    by (simp add: join_Cons del: with_commas.simps(3) join.simps(3))
       (simp add: join_Cons with_commas_ne)
qed

lemma comment_lines:
  "cms \<noteq> [] \<Longrightarrow>
     ''    '' @ join ''\<newline>    '' cms = join ''\<newline>'' (map (\<lambda>d. ''    '' @ d) cms)"
proof (induction cms)
  case Nil
  then show ?case by simp
next
  case (Cons c cms)
  show ?case
  proof (cases "cms = []")
    case True
    then show ?thesis by simp
  next
    case False
    with Cons have "''    '' @ join ''\<newline>    '' cms = join ''\<newline>'' (map (\<lambda>d. ''    '' @ d) cms)"
      by simp
    with False show ?thesis by (simp add: join_Cons)
  qed
qed

lemma ddl_template_lines:
  "ddl_template tn (join '',\<newline>        '' ds) (join ''\<newline>    '' cms)
     = join ''\<newline>''
         ([[], ''    CREATE TABLE '' @ tn @ '' ('']
          @ (if ds = [] then [''        ''] else map (\<lambda>d. ''        '' @ d) (with_commas ds))
          @ [''    );'', [], ''    COMMENT ON TABLE '' @ tn @ '' is E'' @ two_quotes @ '';'', []]
          @ (if cms = [] then [''    ''] else map (\<lambda>d. ''    '' @ d) cms)
          @ [''    ''])"
proof -
  let ?A = "if ds = [] then [''        ''] else map (\<lambda>d. ''        '' @ d) (with_commas ds)"
  let ?B = "if cms = [] then [''    ''] else map (\<lambda>d. ''    '' @ d) cms"
  have a: "''        '' @ join '',\<newline>        '' ds = join ''\<newline>'' ?A"
  proof (cases "ds = []")
    case True
    then show ?thesis by simp
  next
    case False
    from decl_lines [OF False] False show ?thesis by (simp only: if_False)
  qed
  have b: "''    '' @ join ''\<newline>    '' cms = join ''\<newline>'' ?B"
  proof (cases "cms = []")
    case True
    then show ?thesis by simp
  next
    case False
    from comment_lines [OF False] False show ?thesis by (simp only: if_False)
  qed
  have ane: "?A \<noteq> []" using with_commas_ne [of ds] by simp
  have bne: "?B \<noteq> []" by simp
  have "join ''\<newline>''
         ([[], ''    CREATE TABLE '' @ tn @ '' (''] @ ?A
          @ [''    );'', [], ''    COMMENT ON TABLE '' @ tn @ '' is E'' @ two_quotes @ '';'', []]
          @ ?B @ [''    ''])
        = ''\<newline>'' @ (''    CREATE TABLE '' @ tn @ '' ('') @ ''\<newline>'' @ join ''\<newline>'' ?A
          @ ''\<newline>'' @ ''    );'' @ ''\<newline>'' @ ''\<newline>''
          @ (''    COMMENT ON TABLE '' @ tn @ '' is E'' @ two_quotes @ '';'') @ ''\<newline>''
          @ ''\<newline>'' @ join ''\<newline>'' ?B @ ''\<newline>'' @ ''    ''"
    using ane bne
    by (simp only: join_append join_Cons append_Cons append_Nil list.distinct not_False_eq_True
          join.simps(2) append_is_Nil_conv simp_thms)
  also have "\<dots> = ddl_template tn (join '',\<newline>        '' ds) (join ''\<newline>    '' cms)"
    unfolding a [symmetric] b [symmetric] by (simp add: ddl_template_def)
  finally show ?thesis by simp
qed

subsection \<open>The dedent of the f-string\<close>

lemma solid_lines_norm:
  assumes "\<forall>x\<in>set xs. x \<noteq> [] \<and> \<not> blank_char (hd x)"
  shows "map (\<lambda>l. if l \<noteq> [] \<and> list_all blank_char l then [] else l) (map (\<lambda>d. ind @ d) xs)
           = map (\<lambda>d. ind @ d) xs"
proof -
  have "\<not> list_all blank_char (ind @ x)" if "x \<in> set xs" for x
    using assms that by (cases x) auto
  then show ?thesis by auto
qed

lemma solid_lines_filter:
  assumes "\<forall>x\<in>set xs. x \<noteq> [] \<and> \<not> blank_char (hd x)"
  shows "filter (\<lambda>l. l \<noteq> []) (map (\<lambda>d. ind @ d) xs) = map (\<lambda>d. ind @ d) xs"
  using assms by (induction xs) auto

lemma solid_lines_indent:
  assumes "\<forall>x\<in>set xs. x \<noteq> [] \<and> \<not> blank_char (hd x)" and "list_all blank_char ind"
  shows "map (takeWhile blank_char) (map (\<lambda>d. ind @ d) xs) = map (\<lambda>d. ind) xs"
proof -
  have "takeWhile blank_char (ind @ x) = ind" if "x \<in> set xs" for x
    using assms that solid_indent [of ind "hd x" "tl x"] by (cases x) auto
  then show ?thesis by simp
qed

lemma column_decl_solid: "column_decl p \<noteq> [] \<and> \<not> blank_char (hd (column_decl p))"
  by (simp add: column_decl_def quoted_def blank_char_def)

lemma column_comment_solid:
  "column_comment tn p \<noteq> [] \<and> \<not> blank_char (hd (column_comment tn p))"
  by (simp add: column_comment_def blank_char_def)

lemma with_commas_solid:
  assumes "\<forall>y\<in>set ds. y \<noteq> [] \<and> \<not> blank_char (hd y)"
  shows "\<forall>x\<in>set (with_commas ds). x \<noteq> [] \<and> \<not> blank_char (hd x)"
proof
  fix x assume "x \<in> set (with_commas ds)"
  from with_commas_heads [OF this] obtain y where "y \<in> set ds" "x = y \<or> x = y @ '',''"
    by blast
  with assms show "x \<noteq> [] \<and> \<not> blank_char (hd x)" by (cases y) auto
qed

lemma dtype_map_no_newline: "dtype_map dt = Some ty \<Longrightarrow> CHR 0x0A \<notin> set ty"
  by (cases dt) (auto split: if_splits)

lemma column_decl_no_newline:
  "CHR 0x0A \<notin> set (fst p) \<Longrightarrow> CHR 0x0A \<notin> set (column_decl p)"
  by (cases "dtype_map (snd p)")
     (auto simp: column_decl_def quoted_def dest: dtype_map_no_newline)

lemma column_comment_no_newline:
  "CHR 0x0A \<notin> set tn \<Longrightarrow> CHR 0x0A \<notin> set (fst p) \<Longrightarrow> CHR 0x0A \<notin> set (column_comment tn p)"
  by (simp add: column_comment_def two_quotes_def)

lemma with_commas_no_newline:
  assumes "\<forall>y\<in>set ds. CHR 0x0A \<notin> set y"
  shows "\<forall>x\<in>set (with_commas ds). CHR 0x0A \<notin> set x"
proof
  fix x assume "x \<in> set (with_commas ds)"
  from with_commas_heads [OF this] obtain y where "y \<in> set ds" "x = y \<or> x = y @ '',''"
    by blast
  with assms show "CHR 0x0A \<notin> set x" by auto
qed

lemma strip_margin_lines:
  "map (\<lambda>l. if prefix ''    '' l then drop (length ''    '') l else l) (map (\<lambda>d. ''    '' @ d) xs)
     = xs"
  by (induction xs) simp_all

lemma strip_margin_lines8:
  "map (\<lambda>l. if prefix ''    '' l then drop (length ''    '') l else l)
     (map (\<lambda>d. ''        '' @ d) xs)
     = map (\<lambda>d. ''    '' @ d) xs"
  by (induction xs) simp_all

lemma dedent_ddl_template:
  assumes tn: "CHR 0x0A \<notin> set tn" and labels: "\<forall>p\<in>set cols. CHR 0x0A \<notin> set (fst p)"
  shows "textwrap_dedent
           (ddl_template tn (join '',\<newline>        '' (map column_decl cols))
              (join ''\<newline>    '' (map (column_comment tn) cols)))
         = join ''\<newline>'' (ddl_lines tn cols)"
proof -
  let ?norm = "\<lambda>l. if l \<noteq> [] \<and> list_all blank_char l then [] else l"
  let ?strip = "\<lambda>l. if prefix ''    '' l then drop (length ''    '') l else l"
  let ?L1 = "''    CREATE TABLE '' @ tn @ '' (''"
  let ?L3 = "''    COMMENT ON TABLE '' @ tn @ '' is E'' @ two_quotes @ '';''"
  show ?thesis
  proof (cases "cols = []")
    case True
    let ?ls = "[[], ?L1, ''        '', ''    );'', [], ?L3, [], ''    '', ''    '']"
    let ?ns = "[[], ?L1, [], ''    );'', [], ?L3, [], [], []]"
    have t: "ddl_template tn (join '',\<newline>        '' (map column_decl cols))
              (join ''\<newline>    '' (map (column_comment tn) cols)) = join ''\<newline>'' ?ls"
    proof -
      have "ddl_template tn (join '',\<newline>        '' []) (join ''\<newline>    '' [])
              = join ''\<newline>'' ?ls"
        by (simp only: ddl_template_lines [of tn "[]" "[]"] if_True simp_thms append_Cons
              append_Nil)
      then show ?thesis by (simp only: True list.map)
    qed
    have "textwrap_dedent (join ''\<newline>'' ?ls) = join ''\<newline>'' (map ?strip ?ns)"
    proof (rule textwrap_dedent_lines [where m = "''    ''" and rest = "[''    '', ''    '']"])
      show "?ls \<noteq> []" by simp
      show "\<forall>l\<in>set ?ls. CHR 0x0A \<notin> set l" using tn by (simp add: two_quotes_def)
      show "?ns = map ?norm ?ls" by (simp add: blank_char_def)
      show "map (takeWhile blank_char) (filter (\<lambda>l. l \<noteq> []) ?ns)
              = [''    '', ''    '', ''    '']"
        by (simp add: blank_char_def)
      show "''    '' \<noteq> []" by simp
      show "\<forall>x\<in>set [''    '', ''    '']. prefix ''    '' x" by simp
    qed
    also have "map ?strip ?ns = ddl_lines tn cols"
      using True by (simp add: ddl_lines_def)
    finally show ?thesis using t by simp
  next
    case False
    let ?W = "with_commas (map column_decl cols)"
    let ?C = "map (column_comment tn) cols"
    let ?ls = "[[], ?L1] @ map (\<lambda>d. ''        '' @ d) ?W @ [''    );'', [], ?L3, []]
               @ map (\<lambda>d. ''    '' @ d) ?C @ [''    '']"
    let ?ns = "[[], ?L1] @ map (\<lambda>d. ''        '' @ d) ?W @ [''    );'', [], ?L3, []]
               @ map (\<lambda>d. ''    '' @ d) ?C @ [[]]"
    let ?rest = "map (\<lambda>d. ''        '') ?W @ [''    '', ''    ''] @ map (\<lambda>d. ''    '') ?C"
    have wsolid: "\<forall>x\<in>set ?W. x \<noteq> [] \<and> \<not> blank_char (hd x)"
      by (rule with_commas_solid) (simp add: column_decl_solid)
    have csolid: "\<forall>x\<in>set ?C. x \<noteq> [] \<and> \<not> blank_char (hd x)"
      by (simp add: column_comment_solid)
    have wnl: "\<forall>x\<in>set ?W. CHR 0x0A \<notin> set x"
      by (rule with_commas_no_newline) (use labels in \<open>simp add: column_decl_no_newline\<close>)
    have cnl: "\<forall>x\<in>set ?C. CHR 0x0A \<notin> set x"
      using tn labels by (simp add: column_comment_no_newline)
    have t: "ddl_template tn (join '',\<newline>        '' (map column_decl cols))
              (join ''\<newline>    '' (map (column_comment tn) cols)) = join ''\<newline>'' ?ls"
    proof -
      have ne: "map column_decl cols \<noteq> []" "map (column_comment tn) cols \<noteq> []"
        using False by simp_all
      show ?thesis by (simp only: ddl_template_lines ne if_False)
    qed
    have "textwrap_dedent (join ''\<newline>'' ?ls) = join ''\<newline>'' (map ?strip ?ns)"
    proof (rule textwrap_dedent_lines [where m = "''    ''" and rest = ?rest])
      show "?ls \<noteq> []" by simp
      show "\<forall>l\<in>set ?ls. CHR 0x0A \<notin> set l"
        using tn wnl cnl by (auto simp: two_quotes_def)
      have n1: "?norm ?L1 = ?L1" by (simp add: blank_char_def)
      have n3: "?norm ?L3 = ?L3" by (simp add: blank_char_def)
      have n2: "?norm ''    );'' = ''    );''" by (simp add: blank_char_def)
      have n4: "?norm ''    '' = []" by (simp add: blank_char_def)
      show "?ns = map ?norm ?ls"
        by (simp only: map_append list.map solid_lines_norm [OF wsolid]
              solid_lines_norm [OF csolid] n1 n2 n3 n4) simp
      have f: "filter (\<lambda>l. l \<noteq> []) ?ns
                 = [?L1] @ map (\<lambda>d. ''        '' @ d) ?W @ [''    );'', ?L3]
                   @ map (\<lambda>d. ''    '' @ d) ?C"
        by (simp only: filter_append solid_lines_filter [OF wsolid]
              solid_lines_filter [OF csolid]) simp
      have b4: "list_all blank_char ''    ''" and b8: "list_all blank_char ''        ''"
        by (simp_all add: blank_char_def)
      have i1: "takeWhile blank_char ?L1 = ''    ''" by (simp add: blank_char_def)
      have i2: "takeWhile blank_char ''    );'' = ''    ''" by (simp add: blank_char_def)
      have i3: "takeWhile blank_char ?L3 = ''    ''" by (simp add: blank_char_def)
      show "map (takeWhile blank_char) (filter (\<lambda>l. l \<noteq> []) ?ns) = ''    '' # ?rest"
        unfolding f
        by (simp only: map_append list.map solid_lines_indent [OF wsolid b8]
              solid_lines_indent [OF csolid b4] i1 i2 i3) simp
      show "''    '' \<noteq> []" by simp
      show "\<forall>x\<in>set ?rest. prefix ''    '' x" by auto
    qed
    also have "map ?strip ?ns = ddl_lines tn cols"
    proof -
      have s1: "?strip ?L1 = ''CREATE TABLE '' @ tn @ '' (''" by simp
      have s2: "?strip ''    );'' = '');''" by simp
      have s3: "?strip ?L3 = ''COMMENT ON TABLE '' @ tn @ '' is E'' @ two_quotes @ '';''" by simp
      have s0: "?strip [] = []" by simp
      show ?thesis
        using False
        by (simp only: map_append list.map strip_margin_lines strip_margin_lines8 s0 s1 s2 s3
              ddl_lines_def if_False)
    qed
    finally show ?thesis using t by simp
  qed
qed

subsection \<open>The statement for a frame with mapped dtypes\<close>

text \<open>
  C5, as the code has it. For a frame whose column labels are pairwise distinct and
  whose dtypes are all keys of \<open>_dtype_map\<close>, \<open>draft_sql_ddl_statement\<close> returns the
  dedent of the f-string filled, column by column in the order of the frame, with the
  declaration \<open>"label" type\<close> (the type the mapping gives for the dtype) and with the
  comment statement of the column, below the comment statement of the table. When no
  newline is in the table name or in a label, the text returned is, line by line:
  an empty line, \<open>CREATE TABLE name (\<close>, the declarations with four blanks in front and
  commas between, \<open>);\<close>, an empty line, the comment statement of the table, an empty
  line, the comment statements of the columns, and an empty last line. The mapping is
  float64 to numeric(12, 6), float32 to numeric(10, 4), int64 to INT, int32 to
  SMALLINT, naive timestamps to TIMESTAMP WITHOUT TIME ZONE, timestamps in UTC to
  TIMESTAMPTZ and object to TEXT.
\<close>

theorem mapped_frame_statement:
  assumes "distinct (list_df df)"
    and "\<forall>p\<in>set (columns df). dtype_map (snd p) \<noteq> None"
    and "tn = (case table_name of None \<Rightarrow> ''REPLACE_NAME'' | Some t \<Rightarrow> t)"
  shows "draft_sql_ddl_statement df table_name
           = Inr (textwrap_dedent
                    (ddl_template tn (join '',\<newline>        '' (map column_decl (columns df)))
                       (join ''\<newline>    '' (map (column_comment tn) (columns df)))))
       \<and> (CHR 0x0A \<notin> set tn \<and> (\<forall>c\<in>set (list_df df). CHR 0x0A \<notin> set c)
            \<longrightarrow> draft_sql_ddl_statement df table_name
                  = Inr (join ''\<newline>'' (ddl_lines tn (columns df))))
       \<and> column_decl (c, Float64) = quoted c @ '' numeric(12, 6)''
       \<and> column_decl (c, Float32) = quoted c @ '' numeric(10, 4)''
       \<and> column_decl (c, Int64) = quoted c @ '' INT''
       \<and> column_decl (c, Int32) = quoted c @ '' SMALLINT''
       \<and> column_decl (c, Datetime64ns) = quoted c @ '' TIMESTAMP WITHOUT TIME ZONE''
       \<and> column_decl (c, DatetimeTZ ''ns'' ''UTC'') = quoted c @ '' TIMESTAMPTZ''
       \<and> column_decl (c, Object) = quoted c @ '' TEXT''"
proof -
  have one: "\<forall>p\<in>set (columns df). dtypes_getitem df (fst p) = Inr (OneDtype (snd p))"
    using dtypes_getitem_distinct [OF assms(1)] by auto
  have "ddl_loop df tn (list_df df) ([], [])
          = Inr ([] @ map column_decl (columns df), [] @ map (column_comment tn) (columns df))"
    unfolding list_df_def by (rule ddl_loop_mapped [OF one assms(2)])
  then have first: "draft_sql_ddl_statement df table_name
           = Inr (textwrap_dedent
                    (ddl_template tn (join '',\<newline>        '' (map column_decl (columns df)))
                       (join ''\<newline>    '' (map (column_comment tn) (columns df)))))"
    by (simp add: draft_sql_ddl_statement_def assms(3) [symmetric])
  have second: "draft_sql_ddl_statement df table_name
                  = Inr (join ''\<newline>'' (ddl_lines tn (columns df)))"
    if "CHR 0x0A \<notin> set tn" and "\<forall>c\<in>set (list_df df). CHR 0x0A \<notin> set c"
  proof -
    from that(2) have "\<forall>p\<in>set (columns df). CHR 0x0A \<notin> set (fst p)"
      by (simp add: list_df_def)
    from dedent_ddl_template [OF that(1) this] first show ?thesis by simp
  qed
  have "column_decl (c, Float64) = quoted c @ '' numeric(12, 6)''"
    "column_decl (c, Float32) = quoted c @ '' numeric(10, 4)''"
    "column_decl (c, Int64) = quoted c @ '' INT''"
    "column_decl (c, Int32) = quoted c @ '' SMALLINT''"
    "column_decl (c, Datetime64ns) = quoted c @ '' TIMESTAMP WITHOUT TIME ZONE''"
    "column_decl (c, DatetimeTZ ''ns'' ''UTC'') = quoted c @ '' TIMESTAMPTZ''"
    "column_decl (c, Object) = quoted c @ '' TEXT''"
    by (simp_all add: column_decl_def)
  with first second show ?thesis by blast
qed

text \<open>The statement for the example frame and the table \<open>beds_test\<close>.\<close>

theorem mapped_frame_statement_witness:
  "distinct (list_df beds)
   \<and> draft_sql_ddl_statement beds (Some ''beds_test'')
       = Inr (join ''\<newline>''
                [[],
                 ''CREATE TABLE beds_test ('',
                 ''    \"county\" TEXT,'',
                 ''    \"value\" numeric(12, 6)'',
                 '');'',
                 [],
                 ''COMMENT ON TABLE beds_test is E'' @ two_quotes @ '';'',
                 [],
                 ''COMMENT ON COLUMN beds_test.county is E'' @ two_quotes @ '';'',
                 ''COMMENT ON COLUMN beds_test.value is E'' @ two_quotes @ '';'',
                 []])"
proof -
  have d: "distinct (list_df beds)" by code_simp
  have m: "\<forall>p\<in>set (columns beds). dtype_map (snd p) \<noteq> None" by (simp add: beds_def)
  have t: "''beds_test'' = (case Some ''beds_test'' of None \<Rightarrow> ''REPLACE_NAME'' | Some t \<Rightarrow> t)"
    by simp
  have n: "CHR 0x0A \<notin> set ''beds_test'' \<and> (\<forall>c\<in>set (list_df beds). CHR 0x0A \<notin> set c)"
    by (simp add: beds_def list_df_def)
  have l: "ddl_lines ''beds_test'' (columns beds)
             = [[],
                 ''CREATE TABLE beds_test ('',
                 ''    \"county\" TEXT,'',
                 ''    \"value\" numeric(12, 6)'',
                 '');'',
                 [],
                 ''COMMENT ON TABLE beds_test is E'' @ two_quotes @ '';'',
                 [],
                 ''COMMENT ON COLUMN beds_test.county is E'' @ two_quotes @ '';'',
                 ''COMMENT ON COLUMN beds_test.value is E'' @ two_quotes @ '';'',
                 []]"
    by code_simp
  from mapped_frame_statement [OF d m t] n
  have "draft_sql_ddl_statement beds (Some ''beds_test'')
          = Inr (join ''\<newline>'' (ddl_lines ''beds_test'' (columns beds)))"
    by blast
  with d show ?thesis by (simp only: l simp_thms)
qed

text \<open>
  C5 as stated does not hold for a frame in which a label repeats: both dtypes are keys
  of the mapping, and the call raises the TypeError of the membership test on the
  Series that \<open>dict(df.dtypes)\<close> holds for the label (the text of the message is the one
  of pandas 2).
\<close>

theorem repeated_label_mapped_counterexample:
  "columns doubled = [(''beds'', Int64), (''beds'', Float64)]
   \<and> dtype_map Int64 = Some ''INT''
   \<and> dtype_map Float64 = Some ''numeric(12, 6)''
   \<and> draft_sql_ddl_statement doubled None
       = Inl (TypeError [''unhashable type: 'Series'' @ [CHR 0x27]])"
  by code_simp

end
